theory Spec2Isabelle
  imports Main "HOL-Library.Word" "HOL-Library.Sublist" "HOL-Library.Multiset"
begin

section \<open>Strings\<close>

text \<open>
  A JavaScript string is a sequence of 16-bit UTF-16 code units. The literals of
  \<^verbatim>\<open>index.tsx\<close> that are not ASCII (the Arabic seed texts and the validation message)
  are written out as code units; \<open>ascii\<close> embeds an ASCII literal.
\<close>

type_synonym js_string = "16 word list"

definition ascii :: "string \<Rightarrow> js_string" where
  "ascii s = map of_char s"

section \<open>Type definitions\<close>

text \<open>
  The union \<^verbatim>\<open>'Client' | 'Company'\<close> is both the sender of a message and the view.
  A \<^verbatim>\<open>Date\<close> is its time value, in milliseconds since the epoch. The fields
  \<^verbatim>\<open>id\<close> and \<^verbatim>\<open>text\<close> carry a suffix, the other names are the source's.
  \<^verbatim>\<open>FormData\<close> is the type of the form's state, which TypeScript writes
  \<^verbatim>\<open>Omit<FuelingRequest, 'id' | 'clientId' | 'status' | 'messages' | 'hasUnreadUpdates'>\<close>.
\<close>

datatype Role = Client | Company

type_synonym Date = int

record Message =
  id_msg :: js_string
  sender :: Role
  text_msg :: js_string
  timestamp :: Date

datatype RequestStatus = Pending | Confirmed | Completed | Cancelled

record FormData =
  standNumber :: js_string
  airline :: js_string
  flightNumber :: js_string
  representativeName :: js_string

record FuelingRequest = FormData +
  id_req :: js_string
  clientId :: js_string
  status :: RequestStatus
  messages :: "Message list"
  hasUnreadUpdates :: bool

datatype error = SyntaxError | QuotaExceededError

section \<open>Mock initial data\<close>

text \<open>
  The arguments are the results of the two calls of \<^verbatim>\<open>Date.now()\<close>, made when the module
  is loaded.
\<close>

definition initialRequests :: "Date \<Rightarrow> Date \<Rightarrow> FuelingRequest list" where
  "initialRequests now1 now2 =
    [ \<lparr> standNumber = ascii ''B7'',
        airline = [0x645, 0x635, 0x631, 0x20, 0x644, 0x644, 0x637, 0x64A, 0x631, 0x627, 0x646],
        flightNumber = ascii ''MS612'',
        representativeName = [0x623, 0x62D, 0x645, 0x62F, 0x20, 0x645, 0x62D, 0x645, 0x648, 0x62F],
        id_req = ascii ''req-1'',
        clientId = ascii ''client-abc'',
        status = Pending,
        messages = [],
        hasUnreadUpdates = False \<rparr>,
      \<lparr> standNumber = ascii ''C3'',
        airline = [0x627, 0x644, 0x639, 0x631, 0x628, 0x64A, 0x629, 0x20, 0x644, 0x644, 0x637,
                   0x64A, 0x631, 0x627, 0x646],
        flightNumber = ascii ''G9-261'',
        representativeName = [0x641, 0x627, 0x637, 0x645, 0x629, 0x20, 0x627, 0x644, 0x632, 0x647,
                              0x631, 0x627, 0x621],
        id_req = ascii ''req-2'',
        clientId = ascii ''client-xyz'',
        status = Confirmed,
        messages =
          [ \<lparr> id_msg = ascii ''msg-1'', sender = Company,
              text_msg = [0x62A, 0x645, 0x20, 0x627, 0x644, 0x62A, 0x623, 0x643, 0x64A, 0x62F,
                          0x60C, 0x20, 0x627, 0x644, 0x641, 0x631, 0x64A, 0x642, 0x20, 0x641,
                          0x64A, 0x20, 0x627, 0x644, 0x637, 0x631, 0x64A, 0x642, 0x2E],
              timestamp = now1 - 5 * 60000 \<rparr>,
            \<lparr> id_msg = ascii ''msg-2'', sender = Client,
              text_msg = [0x634, 0x643, 0x631, 0x64B, 0x627, 0x20, 0x644, 0x643, 0x645, 0x60C,
                          0x20, 0x641, 0x64A, 0x20, 0x627, 0x644, 0x627, 0x646, 0x62A, 0x638,
                          0x627, 0x631, 0x2E],
              timestamp = now2 - 3 * 60000 \<rparr> ],
        hasUnreadUpdates = True \<rparr> ]"

section \<open>The local store\<close>

text \<open>
  \<^verbatim>\<open>localStorage\<close> holds string values under string keys and has a size limit: a
  write that would take the stored keys and values beyond the quota raises
  \<^verbatim>\<open>QuotaExceededError\<close> and leaves the store as it was. Sizes are counted in code units.
  \<^verbatim>\<open>put\<close> sets a key of a list of properties: the value of a key that is present is
  replaced where it stands, a new key goes to the end.
\<close>

record Storage =
  items :: "(js_string \<times> js_string) list"
  quota :: nat

definition getItem :: "Storage \<Rightarrow> js_string \<Rightarrow> js_string option" where
  "getItem store key = map_of (items store) key"

fun put :: "js_string \<Rightarrow> 'v \<Rightarrow> (js_string \<times> 'v) list \<Rightarrow> (js_string \<times> 'v) list" where
  "put key val [] = [(key, val)]"
| "put key val ((k, v) # kvs) = (if k = key then (key, val) # kvs else (k, v) # put key val kvs)"

definition storage_size :: "(js_string \<times> js_string) list \<Rightarrow> nat" where
  "storage_size kvs = sum_list (map (\<lambda>(k, v). length k + length v) kvs)"

definition setItem :: "Storage \<Rightarrow> js_string \<Rightarrow> js_string \<Rightarrow> error + Storage" where
  "setItem store key val =
    (let items' = put key val (items store)
     in if storage_size items' > quota store then Inl QuotaExceededError
        else Inr (store\<lparr>items := items'\<rparr>))"

section \<open>Utility functions\<close>

text \<open>
  \<^verbatim>\<open>getClientId\<close>. The first argument is the string \<^verbatim>\<open>uuidv4()\<close> returns if it is called.
  \<^verbatim>\<open>!clientId\<close> holds of \<^verbatim>\<open>null\<close> (no item) and of the empty string.
\<close>

definition getClientId :: "js_string \<Rightarrow> Storage \<Rightarrow> error + (js_string \<times> Storage)" where
  "getClientId uuid store =
    (case getItem store (ascii ''fuelingServiceClientId'') of
       None \<Rightarrow>
         (case setItem store (ascii ''fuelingServiceClientId'') uuid of
            Inl e \<Rightarrow> Inl e
          | Inr store' \<Rightarrow> Inr (uuid, store'))
     | Some clientId' \<Rightarrow>
         if clientId' = [] then
           (case setItem store (ascii ''fuelingServiceClientId'') uuid of
              Inl e \<Rightarrow> Inl e
            | Inr store' \<Rightarrow> Inr (uuid, store'))
         else Inr (clientId', store))"

section \<open>The request collection\<close>

text \<open>
  \<^verbatim>\<open>setRequests(prev => ...)\<close> is a function from the collection to the new collection.
  \<^verbatim>\<open>App\<close> and \<^verbatim>\<open>CompanyView\<close> each define \<^verbatim>\<open>updateRequest\<close>.
\<close>

definition updateRequest :: "FuelingRequest \<Rightarrow> FuelingRequest list \<Rightarrow> FuelingRequest list" where
  "updateRequest updatedRequest prev =
    map (\<lambda>r. if id_req r = id_req updatedRequest then updatedRequest else r) prev"

definition CompanyView_updateRequest :: "FuelingRequest \<Rightarrow> FuelingRequest list \<Rightarrow> FuelingRequest list" where
  "CompanyView_updateRequest updatedRequest prev =
    map (\<lambda>r. if id_req r = id_req updatedRequest then updatedRequest else r) prev"

definition addRequest :: "js_string \<Rightarrow> js_string \<Rightarrow> FormData \<Rightarrow> FuelingRequest list \<Rightarrow> FuelingRequest list" where
  \<comment> \<open>the first argument is the result of \<^verbatim>\<open>uuidv4()\<close>, the second the \<^verbatim>\<open>clientId\<close> of \<^verbatim>\<open>App\<close>\<close>
  "addRequest uuid clientId' newRequestData prev =
    \<lparr> standNumber = standNumber newRequestData,
      airline = airline newRequestData,
      flightNumber = flightNumber newRequestData,
      representativeName = representativeName newRequestData,
      id_req = uuid,
      clientId = clientId',
      status = Pending,
      messages = [],
      hasUnreadUpdates = False \<rparr> # prev"

section \<open>The operator's view\<close>

text \<open>
  A handler of a view reads \<^verbatim>\<open>requests\<close>, the collection the view was rendered
  with, and passes \<^verbatim>\<open>setRequests\<close> a function of the current collection
  \<^verbatim>\<open>prev\<close>: both are arguments. The identifier and the time of a new message are the
  results of \<^verbatim>\<open>uuidv4()\<close> and \<^verbatim>\<open>new Date()\<close>.
\<close>

definition handleStatusChange ::
  "FuelingRequest list \<Rightarrow> js_string \<Rightarrow> RequestStatus \<Rightarrow> FuelingRequest list \<Rightarrow> FuelingRequest list" where
  "handleStatusChange requests id' newStatus prev =
    (case find (\<lambda>r. id_req r = id') requests of
       None \<Rightarrow> prev
     | Some requestToUpdate \<Rightarrow>
         CompanyView_updateRequest
           (requestToUpdate\<lparr>status := newStatus, hasUnreadUpdates := True\<rparr>) prev)"

definition CompanyView_handleSendMessage ::
  "FuelingRequest list \<Rightarrow> js_string \<Rightarrow> js_string \<Rightarrow> js_string \<Rightarrow> Date
     \<Rightarrow> FuelingRequest list \<Rightarrow> FuelingRequest list" where
  "CompanyView_handleSendMessage requests requestId' text' uuid now prev =
    (case find (\<lambda>r. id_req r = requestId') requests of
       None \<Rightarrow> prev
     | Some requestToUpdate \<Rightarrow>
         (let newMessage = \<lparr>id_msg = uuid, sender = Company, text_msg = text', timestamp = now\<rparr>
          in CompanyView_updateRequest
               (requestToUpdate\<lparr>messages := messages requestToUpdate @ [newMessage],
                                 hasUnreadUpdates := True\<rparr>) prev))"

datatype ModalAction = clearCompleted | cancelRequest

record ModalState =
  isOpen :: bool
  action :: "ModalAction option"
  requestId :: "js_string option"

text \<open>
  \<^verbatim>\<open>handleConfirmAction\<close>, the dialog's confirm button. \<^verbatim>\<open>modalState.requestId\<close>
  is tested for truth: it has to be present and not the empty string.
\<close>

definition handleConfirmAction ::
  "ModalState \<Rightarrow> FuelingRequest list \<Rightarrow> FuelingRequest list \<Rightarrow> FuelingRequest list \<times> ModalState" where
  "handleConfirmAction modalState requests prev =
    (let prev1 = (if action modalState = Some clearCompleted
                  then filter (\<lambda>r. status r \<noteq> Completed) prev else prev);
         prev2 = (case requestId modalState of
                    None \<Rightarrow> prev1
                  | Some rid \<Rightarrow>
                      if action modalState = Some cancelRequest \<and> rid \<noteq> []
                      then handleStatusChange requests rid Cancelled prev1 else prev1)
     in (prev2, \<lparr>isOpen = False, action = None, requestId = None\<rparr>))"

definition hasCompletedRequests :: "FuelingRequest list \<Rightarrow> bool" where
  "hasCompletedRequests requests = list_ex (\<lambda>r. status r = Completed) requests"

text \<open>The cards of the operator's view, in the order they are rendered.\<close>

definition CompanyView_cards :: "FuelingRequest list \<Rightarrow> FuelingRequest list" where
  "CompanyView_cards requests = map (\<lambda>req. req) requests"

text \<open>
  The three buttons of a card in the operator's view, with their \<^verbatim>\<open>disabled\<close>
  attributes. A disabled button does not call its \<^verbatim>\<open>onClick\<close>. The confirm and the
  complete button call \<^verbatim>\<open>handleStatusChange\<close> with the card's id; the cancel button opens
  the dialog for it.
\<close>

datatype CardButton = ConfirmButton | CompleteButton | CancelButton

fun button_disabled :: "CardButton \<Rightarrow> RequestStatus \<Rightarrow> bool" where
  "button_disabled ConfirmButton s = (s = Confirmed \<or> s = Completed \<or> s = Cancelled)"
| "button_disabled CompleteButton s = (s = Completed \<or> s = Cancelled)"
| "button_disabled CancelButton s = (s = Completed \<or> s = Cancelled)"

definition click_button ::
  "CardButton \<Rightarrow> FuelingRequest \<Rightarrow> FuelingRequest list \<times> ModalState \<Rightarrow> FuelingRequest list \<times> ModalState" where
  "click_button b request st =
    (let requests = fst st; modalState = snd st
     in if button_disabled b (status request) then st
        else case b of
               ConfirmButton \<Rightarrow> (handleStatusChange requests (id_req request) Confirmed requests, modalState)
             | CompleteButton \<Rightarrow> (handleStatusChange requests (id_req request) Completed requests, modalState)
             | CancelButton \<Rightarrow>
                 (requests, \<lparr>isOpen = True, action = Some cancelRequest, requestId = Some (id_req request)\<rparr>))"

text \<open>
  The status a button asks for: the confirm and the complete button pass theirs to
  \<^verbatim>\<open>handleStatusChange\<close>, the cancel button's is passed by \<^verbatim>\<open>handleConfirmAction\<close>.
\<close>

fun button_status :: "CardButton \<Rightarrow> RequestStatus" where
  "button_status ConfirmButton = Confirmed"
| "button_status CompleteButton = Completed"
| "button_status CancelButton = Cancelled"

section \<open>The requester's view\<close>

definition ClientView_handleSendMessage ::
  "FuelingRequest list \<Rightarrow> js_string \<Rightarrow> js_string \<Rightarrow> js_string \<Rightarrow> Date
     \<Rightarrow> FuelingRequest list \<Rightarrow> FuelingRequest list" where
  "ClientView_handleSendMessage requests requestId' text' uuid now prev =
    (case find (\<lambda>r. id_req r = requestId') requests of
       None \<Rightarrow> prev
     | Some requestToUpdate \<Rightarrow>
         (let newMessage = \<lparr>id_msg = uuid, sender = Client, text_msg = text', timestamp = now\<rparr>
          in updateRequest (requestToUpdate\<lparr>messages := messages requestToUpdate @ [newMessage]\<rparr>) prev))"

text \<open>
  \<^verbatim>\<open>String.prototype.trim\<close> removes the white space and line terminator code points of
  ECMAScript from both ends.
\<close>

definition is_white_space :: "16 word \<Rightarrow> bool" where
  "is_white_space c =
    (c = 0x9 \<or> c = 0xA \<or> c = 0xB \<or> c = 0xC \<or> c = 0xD \<or> c = 0x20 \<or> c = 0xA0 \<or> c = 0x1680
     \<or> (0x2000 \<le> c \<and> c \<le> 0x200A) \<or> c = 0x2028 \<or> c = 0x2029 \<or> c = 0x202F \<or> c = 0x205F
     \<or> c = 0x3000 \<or> c = 0xFEFF)"

definition trim :: "js_string \<Rightarrow> js_string" where
  "trim s = rev (dropWhile is_white_space (rev (dropWhile is_white_space s)))"

text \<open>
  \<^verbatim>\<open>ChatInterface.handleSubmit\<close> with the \<^verbatim>\<open>onSendMessage\<close> of the card: a message
  that is blank is not sent, another one is sent trimmed, by the handler of the view the
  card is in. The view is rendered with the current collection.
\<close>

definition ChatInterface_handleSubmit ::
  "Role \<Rightarrow> js_string \<Rightarrow> js_string \<Rightarrow> js_string \<Rightarrow> Date \<Rightarrow> FuelingRequest list \<Rightarrow> FuelingRequest list" where
  "ChatInterface_handleSubmit senderType requestId' newMessage uuid now requests =
    (if trim newMessage \<noteq> [] then
       (case senderType of
          Client \<Rightarrow> ClientView_handleSendMessage requests requestId' (trim newMessage) uuid now requests
        | Company \<Rightarrow> CompanyView_handleSendMessage requests requestId' (trim newMessage) uuid now requests)
     else requests)"

text \<open>A sequence of submitted messages: view, request id, text, generated id and time of each.\<close>

fun send_all ::
  "(Role \<times> js_string \<times> js_string \<times> js_string \<times> Date) list \<Rightarrow> FuelingRequest list \<Rightarrow> FuelingRequest list" where
  "send_all [] requests = requests"
| "send_all ((senderType, requestId', newMessage, uuid, now) # ops) requests =
     send_all ops (ChatInterface_handleSubmit senderType requestId' newMessage uuid now requests)"

text \<open>
  The form. \<^verbatim>\<open>Object.keys(formData)\<close> lists the four keys in the order the state was
  created with.
\<close>

datatype FormKey = Key_standNumber | Key_airline | Key_flightNumber | Key_representativeName

definition Object_keys_formData :: "FormKey list" where
  "Object_keys_formData = [Key_standNumber, Key_airline, Key_flightNumber, Key_representativeName]"

fun formData_get :: "FormData \<Rightarrow> FormKey \<Rightarrow> js_string" where
  "formData_get fd Key_standNumber = standNumber fd"
| "formData_get fd Key_airline = airline fd"
| "formData_get fd Key_flightNumber = flightNumber fd"
| "formData_get fd Key_representativeName = representativeName fd"

definition required_message :: js_string where
  "required_message = [0x647, 0x630, 0x627, 0x20, 0x627, 0x644, 0x62D, 0x642, 0x644, 0x20, 0x645,
                       0x637, 0x644, 0x648, 0x628]"

text \<open>
  The list of the requester's view. \<^verbatim>\<open>Array.prototype.sort\<close> is the engine's: it is the
  first argument. The comparison function looks at its first argument only and never
  returns 0.
\<close>

definition pending_first :: "FuelingRequest \<Rightarrow> FuelingRequest \<Rightarrow> int" where
  "pending_first a b = (if status a = Pending then - 1 else 1)"

definition clientRequests ::
  "((FuelingRequest \<Rightarrow> FuelingRequest \<Rightarrow> int) \<Rightarrow> FuelingRequest list \<Rightarrow> FuelingRequest list)
     \<Rightarrow> FuelingRequest list \<Rightarrow> js_string \<Rightarrow> FuelingRequest list" where
  "clientRequests sort' requests clientId' =
    sort' pending_first (filter (\<lambda>r. clientId r = clientId') requests)"

text \<open>
  The sort of the V8 engine (Chrome, Edge, Node.js) on an array of fewer than 64 elements,
  where its TimSort makes a single run: it takes the longest run at the start of the array,
  descending when \<^verbatim>\<open>comparefn(a[1], a[0]) < 0\<close> and then reversed in place, and inserts each
  later element by binary search, comparing \<^verbatim>\<open>comparefn(pivot, a[mid])\<close>. Longer arrays
  are cut into several runs that are merged, which this definition does not follow.
\<close>

fun count_run :: "('a \<Rightarrow> 'a \<Rightarrow> int) \<Rightarrow> bool \<Rightarrow> 'a \<Rightarrow> 'a list \<Rightarrow> nat" where
  "count_run comparefn isDescending previousElement [] = 0"
| "count_run comparefn isDescending previousElement (currentElement # rest) =
     (let order = comparefn currentElement previousElement
      in if (if isDescending then order \<ge> 0 else order < 0) then 0
         else Suc (count_run comparefn isDescending currentElement rest))"

fun CountAndMakeRun :: "('a \<Rightarrow> 'a \<Rightarrow> int) \<Rightarrow> 'a list \<Rightarrow> 'a list \<times> nat" where
  "CountAndMakeRun comparefn (elementHigh # elementLow # rest) =
     (let isDescending = comparefn elementLow elementHigh < 0;
          runLength = 2 + count_run comparefn isDescending elementLow rest;
          a = elementHigh # elementLow # rest
      in if isDescending then (rev (take runLength a) @ drop runLength a, runLength)
         else (a, runLength))"
| "CountAndMakeRun comparefn a = (a, length a)"

function find_insertion_point :: "('a \<Rightarrow> 'a \<Rightarrow> int) \<Rightarrow> 'a \<Rightarrow> 'a list \<Rightarrow> nat \<Rightarrow> nat \<Rightarrow> nat" where
  "find_insertion_point comparefn pivot a left right =
     (if left < right then
        (let mid = left + (right - left) div 2;
             order = comparefn pivot (a ! mid)
         in if order < 0 then find_insertion_point comparefn pivot a left mid
            else find_insertion_point comparefn pivot a (mid + 1) right)
      else left)"
  by pat_completeness auto
termination
  by (relation "measure (\<lambda>(comparefn, pivot, a, left, right). right - left)") auto

declare find_insertion_point.simps [simp del]

fun BinaryInsertionSort :: "('a \<Rightarrow> 'a \<Rightarrow> int) \<Rightarrow> 'a list \<Rightarrow> 'a list \<Rightarrow> 'a list" where
  "BinaryInsertionSort comparefn sorted_part [] = sorted_part"
| "BinaryInsertionSort comparefn sorted_part (pivot # rest) =
     (let left = find_insertion_point comparefn pivot sorted_part 0 (length sorted_part)
      in BinaryInsertionSort comparefn (take left sorted_part @ [pivot] @ drop left sorted_part) rest)"

definition v8_sort :: "('a \<Rightarrow> 'a \<Rightarrow> int) \<Rightarrow> 'a list \<Rightarrow> 'a list" where
  "v8_sort comparefn a =
    (if length a < 2 then a
     else (let (a', runLength) = CountAndMakeRun comparefn a
           in BinaryInsertionSort comparefn (take runLength a') (drop runLength a')))"

section \<open>JSON\<close>

text \<open>
  \<^verbatim>\<open>JSON.parse\<close>. A parsed document is a value of \<open>json\<close>; a number keeps its
  text, since no number of a document is computed with, and \<open>JDate v\<close> is the
  \<^verbatim>\<open>Date\<close> object \<^verbatim>\<open>new Date(v)\<close> that the reviver puts in. The parser follows the
  JSON grammar of ECMAScript: white space is tab, line feed, carriage return and space; a
  string has no raw control character and the escapes
  \<^verbatim>\<open>\" \\ \/ \b \f \n \r \t \uXXXX\<close>; a number has no leading zero and
  needs digits after a point and after an exponent mark; a repeated key keeps its last
  value. The recursion is on fuel: \<open>OutOfFuel\<close> is not an answer of
  \<^verbatim>\<open>JSON.parse\<close>, and \<open>JSON_parse\<close> is \<open>None\<close> for it.
\<close>

datatype json =
    JNull
  | JBool bool
  | JNumber js_string
  | JString js_string
  | JArray "json list"
  | JObject "(js_string \<times> json) list"
  | JDate json

datatype 'a parse_result = OutOfFuel | Failed | Parsed 'a js_string

definition is_json_white_space :: "16 word \<Rightarrow> bool" where
  "is_json_white_space c = (c = 0x9 \<or> c = 0xA \<or> c = 0xD \<or> c = 0x20)"

definition skip_white_space :: "js_string \<Rightarrow> js_string" where
  "skip_white_space s = dropWhile is_json_white_space s"

definition is_digit :: "16 word \<Rightarrow> bool" where
  "is_digit c = (0x30 \<le> c \<and> c \<le> 0x39)"

definition hex_value :: "16 word \<Rightarrow> 16 word option" where
  "hex_value c =
    (if 0x30 \<le> c \<and> c \<le> 0x39 then Some (c - 0x30)
     else if 0x61 \<le> c \<and> c \<le> 0x66 then Some (c - 0x61 + 10)
     else if 0x41 \<le> c \<and> c \<le> 0x46 then Some (c - 0x41 + 10)
     else None)"

definition unescape :: "16 word \<Rightarrow> 16 word option" where
  "unescape e =
    (if e = 0x22 then Some 0x22
     else if e = 0x5C then Some 0x5C
     else if e = 0x2F then Some 0x2F
     else if e = 0x62 then Some 0x8
     else if e = 0x66 then Some 0xC
     else if e = 0x6E then Some 0xA
     else if e = 0x72 then Some 0xD
     else if e = 0x74 then Some 0x9
     else None)"

fun parse_string_characters :: "js_string \<Rightarrow> (js_string \<times> js_string) option" where
  "parse_string_characters [] = None"
| "parse_string_characters (c # cs) =
     (if c = 0x22 then Some ([], cs)
      else if c = 0x5C then
        (case cs of
           [] \<Rightarrow> None
         | e # cs' \<Rightarrow>
             if e = 0x75 then
               (case cs' of
                  h1 # h2 # h3 # h4 # cs'' \<Rightarrow>
                    (case (hex_value h1, hex_value h2, hex_value h3, hex_value h4) of
                       (Some a, Some b, Some c', Some d) \<Rightarrow>
                         map_option (\<lambda>(str, rest). ((a * 0x1000 + b * 0x100 + c' * 0x10 + d) # str, rest))
                           (parse_string_characters cs'')
                     | _ \<Rightarrow> None)
                | _ \<Rightarrow> None)
             else
               (case unescape e of
                  None \<Rightarrow> None
                | Some x \<Rightarrow> map_option (\<lambda>(str, rest). (x # str, rest)) (parse_string_characters cs')))
      else if c < 0x20 then None
      else map_option (\<lambda>(str, rest). (c # str, rest)) (parse_string_characters cs))"

definition parse_digits :: "js_string \<Rightarrow> (js_string \<times> js_string) option" where
  "parse_digits s =
    (let ds = takeWhile is_digit s in if ds = [] then None else Some (ds, dropWhile is_digit s))"

definition parse_integer_part :: "js_string \<Rightarrow> (js_string \<times> js_string) option" where
  "parse_integer_part s =
    (case s of
       [] \<Rightarrow> None
     | d # r \<Rightarrow> if d = 0x30 then Some ([d], r) else parse_digits s)"

definition parse_fraction :: "js_string \<Rightarrow> (js_string \<times> js_string) option" where
  "parse_fraction s =
    (case s of
       [] \<Rightarrow> Some ([], s)
     | c # r \<Rightarrow>
         if c = 0x2E then map_option (\<lambda>(ds, rest). (c # ds, rest)) (parse_digits r)
         else Some ([], s))"

definition parse_exponent :: "js_string \<Rightarrow> (js_string \<times> js_string) option" where
  "parse_exponent s =
    (case s of
       [] \<Rightarrow> Some ([], s)
     | c # r \<Rightarrow>
         if c = 0x65 \<or> c = 0x45 then
           (case r of
              [] \<Rightarrow> None
            | g # r' \<Rightarrow>
                if g = 0x2B \<or> g = 0x2D
                then map_option (\<lambda>(ds, rest). (c # g # ds, rest)) (parse_digits r')
                else map_option (\<lambda>(ds, rest). (c # ds, rest)) (parse_digits r))
         else Some ([], s))"

definition parse_number :: "js_string \<Rightarrow> (js_string \<times> js_string) option" where
  "parse_number s =
    (let (sign, s1) = (case s of [] \<Rightarrow> ([], s) | c # r \<Rightarrow> if c = 0x2D then ([c], r) else ([], s))
     in case parse_integer_part s1 of
          None \<Rightarrow> None
        | Some (ip, s2) \<Rightarrow>
            (case parse_fraction s2 of
               None \<Rightarrow> None
             | Some (fp, s3) \<Rightarrow>
                 (case parse_exponent s3 of
                    None \<Rightarrow> None
                  | Some (ep, s4) \<Rightarrow> Some (sign @ ip @ fp @ ep, s4))))"

fun parse_value :: "nat \<Rightarrow> js_string \<Rightarrow> json parse_result"
  and parse_elements :: "nat \<Rightarrow> json list \<Rightarrow> js_string \<Rightarrow> json parse_result"
  and parse_members :: "nat \<Rightarrow> (js_string \<times> json) list \<Rightarrow> js_string \<Rightarrow> json parse_result" where
  "parse_value 0 s = OutOfFuel"
| "parse_value (Suc n) s =
     (case skip_white_space s of
        [] \<Rightarrow> Failed
      | c # cs \<Rightarrow>
          if c = 0x7B then
            (case skip_white_space cs of
               [] \<Rightarrow> Failed
             | d # ds \<Rightarrow> if d = 0x7D then Parsed (JObject []) ds else parse_members n [] (d # ds))
          else if c = 0x5B then
            (case skip_white_space cs of
               [] \<Rightarrow> Failed
             | d # ds \<Rightarrow> if d = 0x5D then Parsed (JArray []) ds else parse_elements n [] (d # ds))
          else if c = 0x22 then
            (case parse_string_characters cs of
               None \<Rightarrow> Failed
             | Some (str, rest) \<Rightarrow> Parsed (JString str) rest)
          else if take 4 (c # cs) = ascii ''true'' then Parsed (JBool True) (drop 4 (c # cs))
          else if take 5 (c # cs) = ascii ''false'' then Parsed (JBool False) (drop 5 (c # cs))
          else if take 4 (c # cs) = ascii ''null'' then Parsed JNull (drop 4 (c # cs))
          else
            (case parse_number (c # cs) of
               None \<Rightarrow> Failed
             | Some (lexeme, rest) \<Rightarrow> Parsed (JNumber lexeme) rest))"
| "parse_elements 0 acc s = OutOfFuel"
| "parse_elements (Suc n) acc s =
     (case parse_value n s of
        OutOfFuel \<Rightarrow> OutOfFuel
      | Failed \<Rightarrow> Failed
      | Parsed v rest \<Rightarrow>
          (case skip_white_space rest of
             [] \<Rightarrow> Failed
           | c # cs \<Rightarrow>
               if c = 0x2C then parse_elements n (acc @ [v]) cs
               else if c = 0x5D then Parsed (JArray (acc @ [v])) cs
               else Failed))"
| "parse_members 0 acc s = OutOfFuel"
| "parse_members (Suc n) acc s =
     (case skip_white_space s of
        [] \<Rightarrow> Failed
      | q # cs \<Rightarrow>
          if q \<noteq> 0x22 then Failed
          else
            (case parse_string_characters cs of
               None \<Rightarrow> Failed
             | Some (key, rest) \<Rightarrow>
                 (case skip_white_space rest of
                    [] \<Rightarrow> Failed
                  | colon # rest' \<Rightarrow>
                      if colon \<noteq> 0x3A then Failed
                      else
                        (case parse_value n rest' of
                           OutOfFuel \<Rightarrow> OutOfFuel
                         | Failed \<Rightarrow> Failed
                         | Parsed v rest'' \<Rightarrow>
                             (case skip_white_space rest'' of
                                [] \<Rightarrow> Failed
                              | c # cs' \<Rightarrow>
                                  if c = 0x2C then parse_members n (put key v acc) cs'
                                  else if c = 0x7D then Parsed (JObject (put key v acc)) cs'
                                  else Failed)))))"

definition JSON_parse :: "js_string \<Rightarrow> (error + json) option" where
  "JSON_parse text' =
    (case parse_value (2 * length text' + 1) text' of
       OutOfFuel \<Rightarrow> None
     | Failed \<Rightarrow> Some (Inl SyntaxError)
     | Parsed v rest \<Rightarrow> if skip_white_space rest = [] then Some (Inr v) else Some (Inl SyntaxError))"


text \<open>
  \<^verbatim>\<open>Date.prototype.toISOString\<close>: the date of the proleptic Gregorian calendar and the
  time of day, in UTC, of a time value. The year has four digits from 0 to 9999 and a sign
  and six digits outside. \<^verbatim>\<open>toJSON\<close> is \<^verbatim>\<open>null\<close> for a time value that is
  out of the range of \<^verbatim>\<open>Date\<close>.
\<close>

definition digit_char :: "int \<Rightarrow> 16 word" where
  "digit_char d = of_int (0x30 + d)"

fun pad :: "nat \<Rightarrow> int \<Rightarrow> js_string" where
  "pad 0 k = []"
| "pad (Suc n) k = pad n (k div 10) @ [digit_char (k mod 10)]"

definition civil_from_days :: "int \<Rightarrow> int \<times> int \<times> int" where
  "civil_from_days z =
    (let z' = z + 719468;
         era = z' div 146097;
         doe = z' - era * 146097;
         yoe = (doe - doe div 1460 + doe div 36524 - doe div 146096) div 365;
         y = yoe + era * 400;
         doy = doe - (365 * yoe + yoe div 4 - yoe div 100);
         mp = (5 * doy + 2) div 153;
         d = doy - (153 * mp + 2) div 5 + 1;
         m = (if mp < 10 then mp + 3 else mp - 9)
     in (if m \<le> 2 then y + 1 else y, m, d))"

definition toISOString :: "Date \<Rightarrow> js_string" where
  "toISOString t =
    (let (y, m, d) = civil_from_days (t div 86400000);
         ms = t mod 86400000;
         year = (if 0 \<le> y \<and> y \<le> 9999 then pad 4 y
                 else (if y < 0 then [0x2D] else [0x2B]) @ pad 6 (abs y))
     in year @ [0x2D] @ pad 2 m @ [0x2D] @ pad 2 d @ [0x54]
        @ pad 2 (ms div 3600000) @ [0x3A] @ pad 2 (ms div 60000 mod 60) @ [0x3A]
        @ pad 2 (ms div 1000 mod 60) @ [0x2E] @ pad 3 (ms mod 1000) @ [0x5A])"

text \<open>
  \<^verbatim>\<open>JSON.stringify\<close> of the collection. A string is quoted with the escapes of
  \<^verbatim>\<open>QuoteJSONString\<close>: the short escapes, \<^verbatim>\<open>\u\<close> and four lower-case hexadecimal
  digits for the other control characters and for a surrogate that is not part of a pair.
  The properties of a request and of a message are written in the order in which the
  code creates them.
\<close>

definition hex_digit :: "16 word \<Rightarrow> 16 word" where
  "hex_digit d = (if d < 10 then 0x30 + d else 0x61 + (d - 10))"

definition unicode_escape :: "16 word \<Rightarrow> js_string" where
  "unicode_escape c =
    [0x5C, 0x75, hex_digit (c div 0x1000), hex_digit (c div 0x100 mod 0x10),
     hex_digit (c div 0x10 mod 0x10), hex_digit (c mod 0x10)]"

definition is_leading_surrogate :: "16 word \<Rightarrow> bool" where
  "is_leading_surrogate c = (0xD800 \<le> c \<and> c \<le> 0xDBFF)"

definition is_trailing_surrogate :: "16 word \<Rightarrow> bool" where
  "is_trailing_surrogate c = (0xDC00 \<le> c \<and> c \<le> 0xDFFF)"

definition quote_code_unit :: "16 word \<Rightarrow> js_string" where
  "quote_code_unit c =
    (if c = 0x8 then [0x5C, 0x62]
     else if c = 0x9 then [0x5C, 0x74]
     else if c = 0xA then [0x5C, 0x6E]
     else if c = 0xC then [0x5C, 0x66]
     else if c = 0xD then [0x5C, 0x72]
     else if c = 0x22 then [0x5C, 0x22]
     else if c = 0x5C then [0x5C, 0x5C]
     else if c < 0x20 \<or> is_leading_surrogate c \<or> is_trailing_surrogate c then unicode_escape c
     else [c])"

fun quote_characters :: "js_string \<Rightarrow> js_string" where
  "quote_characters [] = []"
| "quote_characters [c] = quote_code_unit c"
| "quote_characters (c # d # cs) =
     (if is_leading_surrogate c \<and> is_trailing_surrogate d then c # d # quote_characters cs
      else quote_code_unit c @ quote_characters (d # cs))"

definition QuoteJSONString :: "js_string \<Rightarrow> js_string" where
  "QuoteJSONString s = [0x22] @ quote_characters s @ [0x22]"

fun join_comma :: "js_string list \<Rightarrow> js_string" where
  "join_comma [] = []"
| "join_comma [x] = x"
| "join_comma (x # y # zs) = x @ [0x2C] @ join_comma (y # zs)"

definition stringify_object :: "(string \<times> js_string) list \<Rightarrow> js_string" where
  \<comment> \<open>the properties with their values already serialized\<close>
  "stringify_object props =
    [0x7B] @ join_comma (map (\<lambda>(key, v). QuoteJSONString (ascii key) @ [0x3A] @ v) props) @ [0x7D]"

definition stringify_array :: "js_string list \<Rightarrow> js_string" where
  "stringify_array elements = [0x5B] @ join_comma elements @ [0x5D]"

definition Date_toJSON :: "Date \<Rightarrow> js_string" where
  "Date_toJSON t =
    (if abs t \<le> 8640000000000000 then QuoteJSONString (toISOString t) else ascii ''null'')"

fun Role_string :: "Role \<Rightarrow> js_string" where
  "Role_string Client = ascii ''Client''"
| "Role_string Company = ascii ''Company''"

fun RequestStatus_string :: "RequestStatus \<Rightarrow> js_string" where
  "RequestStatus_string Pending = ascii ''Pending''"
| "RequestStatus_string Confirmed = ascii ''Confirmed''"
| "RequestStatus_string Completed = ascii ''Completed''"
| "RequestStatus_string Cancelled = ascii ''Cancelled''"

definition stringify_Message :: "Message \<Rightarrow> js_string" where
  "stringify_Message m =
    stringify_object
      [(''id'', QuoteJSONString (id_msg m)),
       (''sender'', QuoteJSONString (Role_string (sender m))),
       (''text'', QuoteJSONString (text_msg m)),
       (''timestamp'', Date_toJSON (timestamp m))]"

definition stringify_FuelingRequest :: "FuelingRequest \<Rightarrow> js_string" where
  "stringify_FuelingRequest r =
    stringify_object
      [(''id'', QuoteJSONString (id_req r)),
       (''clientId'', QuoteJSONString (clientId r)),
       (''standNumber'', QuoteJSONString (standNumber r)),
       (''airline'', QuoteJSONString (airline r)),
       (''flightNumber'', QuoteJSONString (flightNumber r)),
       (''representativeName'', QuoteJSONString (representativeName r)),
       (''status'', QuoteJSONString (RequestStatus_string (status r))),
       (''messages'', stringify_array (map stringify_Message (messages r))),
       (''hasUnreadUpdates'', ascii (if hasUnreadUpdates r then ''true'' else ''false''))]"

definition JSON_stringify :: "FuelingRequest list \<Rightarrow> js_string" where
  "JSON_stringify requests = stringify_array (map stringify_FuelingRequest requests)"

section \<open>The main component\<close>



text \<open>
  The effect that saves the collection after a change. Nothing catches an exception of
  \<^verbatim>\<open>setItem\<close>: it is the result of the effect.
\<close>

definition save_effect :: "FuelingRequest list \<Rightarrow> Storage \<Rightarrow> error + Storage" where
  "save_effect requests store = setItem store (ascii ''fuelingRequests'') (JSON_stringify requests)"

section \<open>The status transitions\<close>

text \<open>
  The edges of the status state machine, as the specification lists them:
  Pending to Confirmed, Pending to Completed, Confirmed to Completed, and Pending or
  Confirmed to Cancelled.
\<close>

definition allowed_edge :: "RequestStatus \<Rightarrow> RequestStatus \<Rightarrow> bool" where
  "allowed_edge s t =
    ((s = Pending \<and> t = Confirmed) \<or> (s = Pending \<and> t = Completed) \<or> (s = Confirmed \<and> t = Completed)
     \<or> (s = Pending \<and> t = Cancelled) \<or> (s = Confirmed \<and> t = Cancelled))"

section \<open>Submitting the form\<close>

text \<open>
  The state the requester's view works on: the collection, the state variables of the view,
  and the timers set with \<^verbatim>\<open>setTimeout\<close> that have not expired, each with its delay in
  milliseconds and its callback. The callback of a submission holds the form data it was
  created with.
\<close>

datatype TimerCallback = SubmitCallback FormData | HideSuccessCallback

record ClientApp =
  requests :: "FuelingRequest list"
  formData :: FormData
  errors :: "(FormKey \<times> js_string) list"
  isSubmitting :: bool
  showSuccess :: bool
  openChatId :: "js_string option"
  timers :: "(nat \<times> TimerCallback) list"

text \<open>
  \<^verbatim>\<open>newErrors\<close> is an object that gets a property for each blank field, in the order of
  the keys: a list of pairs.
\<close>

definition validateForm :: "FormData \<Rightarrow> (FormKey \<times> js_string) list \<times> bool" where
  "validateForm fd =
    (let newErrors =
           foldl (\<lambda>errs key. if trim (formData_get fd key) = [] then errs @ [(key, required_message)]
                               else errs)
             [] Object_keys_formData
     in (newErrors, length newErrors = 0))"

text \<open>
  \<^verbatim>\<open>handleSubmit\<close> sets the errors and, when the form is valid, a timer of 500 ms whose
  callback holds the form data of the submission. \<^verbatim>\<open>run_callback\<close> is the body of a
  callback, \<^verbatim>\<open>fire_timer\<close> the expiry of the timer at a position of the list.
\<close>

definition handleSubmit :: "ClientApp \<Rightarrow> ClientApp" where
  "handleSubmit w =
    (let (newErrors, valid) = validateForm (formData w);
         w1 = w\<lparr>errors := newErrors\<rparr>
     in if \<not> valid then w1
        else w1\<lparr>isSubmitting := True,
                 timers := timers w1 @ [(500, SubmitCallback (formData w))]\<rparr>)"

fun run_callback :: "js_string \<Rightarrow> js_string \<Rightarrow> TimerCallback \<Rightarrow> ClientApp \<Rightarrow> ClientApp" where
  "run_callback uuid clientId' (SubmitCallback fd) w =
     w\<lparr>requests := addRequest uuid clientId' fd (requests w),
       formData := \<lparr>standNumber = [], airline = [], flightNumber = [], representativeName = []\<rparr>,
       isSubmitting := False,
       showSuccess := True,
       timers := timers w @ [(3000, HideSuccessCallback)]\<rparr>"
| "run_callback uuid clientId' HideSuccessCallback w = w\<lparr>showSuccess := False\<rparr>"

definition fire_timer :: "js_string \<Rightarrow> js_string \<Rightarrow> nat \<Rightarrow> ClientApp \<Rightarrow> ClientApp" where
  "fire_timer uuid clientId' i w =
    (if i < length (timers w)
     then run_callback uuid clientId' (snd (timers w ! i))
            (w\<lparr>timers := take i (timers w) @ drop (Suc i) (timers w)\<rparr>)
     else w)"

section \<open>The requester identifier\<close>

lemma map_of_put_same: "map_of (put key val kvs) key = Some val"
  by (induction kvs) auto

lemma map_of_put_other: "k \<noteq> key \<Longrightarrow> map_of (put key val kvs) k = map_of kvs k"
  by (induction kvs) auto

lemma getItem_setItem:
  assumes "setItem store key val = Inr store'"
  shows "getItem store' key = Some val"
    and "k \<noteq> key \<Longrightarrow> getItem store' k = getItem store k"
    and "quota store' = quota store"
  using assms
  by (auto simp: setItem_def getItem_def Let_def map_of_put_same map_of_put_other split: if_splits)

text \<open>
  C10. \<^verbatim>\<open>getClientId\<close> is stable. Take a generated identifier that is not the empty
  string (a UUID has 36 characters). A call that returns, returns an identifier and a store
  on which every later call returns the same identifier and leaves the store as it is,
  whatever the generator would produce then. On first use (no item under the key
  \<^verbatim>\<open>fuelingServiceClientId\<close>, or an empty one) the call returns the generated identifier,
  stores it under that key and changes no other key; when a non-empty identifier is stored,
  it is returned and nothing is written.
\<close>

theorem getClientId_stable:
  "(uuid1 \<noteq> [] \<and> getClientId uuid1 store = Inr (c, store')
      \<longrightarrow> getClientId uuid2 store' = Inr (c, store'))
   \<and> ((getItem store (ascii ''fuelingServiceClientId'') = None
        \<or> getItem store (ascii ''fuelingServiceClientId'') = Some [])
       \<and> getClientId uuid1 store = Inr (c, store')
      \<longrightarrow> c = uuid1 \<and> getItem store' (ascii ''fuelingServiceClientId'') = Some uuid1
          \<and> (\<forall>k. k \<noteq> ascii ''fuelingServiceClientId'' \<longrightarrow> getItem store' k = getItem store k))
   \<and> (getItem store (ascii ''fuelingServiceClientId'') = Some c \<and> c \<noteq> []
      \<longrightarrow> getClientId uuid1 store = Inr (c, store))"
proof (intro conjI impI)
  assume a: "uuid1 \<noteq> [] \<and> getClientId uuid1 store = Inr (c, store')"
  then have "getItem store' (ascii ''fuelingServiceClientId'') = Some c \<and> c \<noteq> []"
    by (auto simp: getClientId_def getItem_setItem(1) split: option.splits sum.splits if_splits)
  then show "getClientId uuid2 store' = Inr (c, store')"
    by (simp add: getClientId_def)
next
  assume a: "(getItem store (ascii ''fuelingServiceClientId'') = None
        \<or> getItem store (ascii ''fuelingServiceClientId'') = Some [])
       \<and> getClientId uuid1 store = Inr (c, store')"
  then have s: "setItem store (ascii ''fuelingServiceClientId'') uuid1 = Inr store'" and c: "c = uuid1"
    by (auto simp: getClientId_def split: sum.splits)
  show "c = uuid1" by (rule c)
  show "getItem store' (ascii ''fuelingServiceClientId'') = Some uuid1"
    using getItem_setItem(1)[OF s] .
  show "\<forall>k. k \<noteq> ascii ''fuelingServiceClientId'' \<longrightarrow> getItem store' k = getItem store k"
    using getItem_setItem(2)[OF s] by blast
next
  assume "getItem store (ascii ''fuelingServiceClientId'') = Some c \<and> c \<noteq> []"
  then show "getClientId uuid1 store = Inr (c, store)"
    by (simp add: getClientId_def)
qed

theorem getClientId_stable_witness:
  "getClientId (ascii ''u-1'') \<lparr>items = [], quota = 100\<rparr>
     = Inr (ascii ''u-1'', \<lparr>items = [(ascii ''fuelingServiceClientId'', ascii ''u-1'')], quota = 100\<rparr>)
   \<and> getItem \<lparr>items = [], quota = 100\<rparr> (ascii ''fuelingServiceClientId'') = None
   \<and> getClientId (ascii ''u-2'')
        \<lparr>items = [(ascii ''fuelingServiceClientId'', ascii ''u-1'')], quota = 100\<rparr>
     = Inr (ascii ''u-1'', \<lparr>items = [(ascii ''fuelingServiceClientId'', ascii ''u-1'')], quota = 100\<rparr>)
   \<and> getItem \<lparr>items = [(ascii ''fuelingServiceClientId'', ascii ''u-1'')], quota = 100\<rparr>
        (ascii ''fuelingServiceClientId'') = Some (ascii ''u-1'')
   \<and> getClientId (ascii ''u-1'') \<lparr>items = [(ascii ''fuelingServiceClientId'', ascii ''u-1'')], quota = 100\<rparr>
     = Inr (ascii ''u-1'', \<lparr>items = [(ascii ''fuelingServiceClientId'', ascii ''u-1'')], quota = 100\<rparr>)"
proof -
  let ?s = "\<lparr>items = [], quota = 100\<rparr>"
  let ?s' = "\<lparr>items = [(ascii ''fuelingServiceClientId'', ascii ''u-1'')], quota = 100\<rparr>"
  have ne: "ascii ''u-1'' \<noteq> []" by (simp add: ascii_def)
  have absent: "getItem ?s (ascii ''fuelingServiceClientId'') = None"
    by (simp add: getItem_def)
  have first: "getClientId (ascii ''u-1'') ?s = Inr (ascii ''u-1'', ?s')"
    by (simp add: getClientId_def getItem_def setItem_def storage_size_def ascii_def)
  have stored: "getItem ?s' (ascii ''fuelingServiceClientId'') = Some (ascii ''u-1'')"
    by (simp add: getItem_def)
  note t = getClientId_stable[of "ascii ''u-1''" ?s "ascii ''u-1''" ?s' "ascii ''u-2''"]
  note t' = getClientId_stable[of "ascii ''u-1''" ?s' "ascii ''u-1''" ?s' "ascii ''u-2''"]
  from t ne first have second: "getClientId (ascii ''u-2'') ?s' = Inr (ascii ''u-1'', ?s')"
    by blast
  from t' ne stored have third: "getClientId (ascii ''u-1'') ?s' = Inr (ascii ''u-1'', ?s')"
    by blast
  show ?thesis using first absent second stored third by blast
qed

section \<open>Replacing a request\<close>

text \<open>
  C7. \<^verbatim>\<open>updateRequest\<close> keeps the length and the positions of the collection and puts
  the given request at every position whose request has its id, leaving the other positions
  as they are. When no request has the id the collection is unchanged. When the ids of the
  collection are distinct, the one request with the id is replaced. The function has no
  error result: it returns a collection for every argument. The definition in
  \<^verbatim>\<open>CompanyView\<close> is the same function.
\<close>

theorem updateRequest_replaces_matching:
  "length (updateRequest u prev) = length prev
   \<and> (\<forall>i<length prev. updateRequest u prev ! i = (if id_req (prev ! i) = id_req u then u else prev ! i))
   \<and> ((\<forall>r\<in>set prev. id_req r \<noteq> id_req u) \<longrightarrow> updateRequest u prev = prev)
   \<and> (distinct (map id_req prev)
        \<longrightarrow> (\<forall>i<length prev. id_req (prev ! i) = id_req u \<longrightarrow> updateRequest u prev = prev[i := u]))
   \<and> CompanyView_updateRequest u prev = updateRequest u prev"
proof (intro conjI impI allI)
  show "length (updateRequest u prev) = length prev"
    by (simp add: updateRequest_def)
  show "\<And>i. i < length prev \<Longrightarrow>
      updateRequest u prev ! i = (if id_req (prev ! i) = id_req u then u else prev ! i)"
    by (simp add: updateRequest_def)
  show "updateRequest u prev = prev" if "\<forall>r\<in>set prev. id_req r \<noteq> id_req u"
    using that by (simp add: updateRequest_def map_idI)
  show "updateRequest u prev = prev[i := u]"
    if d: "distinct (map id_req prev)" and i: "i < length prev" and e: "id_req (prev ! i) = id_req u" for i
  proof (rule nth_equalityI)
    show "length (updateRequest u prev) = length (prev[i := u])"
      by (simp add: updateRequest_def)
    fix j assume "j < length (updateRequest u prev)"
    then have j: "j < length prev" by (simp add: updateRequest_def)
    show "updateRequest u prev ! j = prev[i := u] ! j"
    proof (cases "j = i")
      case True
      then show ?thesis using i e by (simp add: updateRequest_def)
    next
      case False
      have "id_req (prev ! j) \<noteq> id_req (prev ! i)"
        using d i j False by (metis distinct_conv_nth length_map nth_map)
      then show ?thesis using False j e by (simp add: updateRequest_def)
    qed
  qed
  show "CompanyView_updateRequest u prev = updateRequest u prev"
    by (simp add: CompanyView_updateRequest_def updateRequest_def)
qed

theorem updateRequest_replaces_matching_witness:
  "updateRequest ((initialRequests 0 0 ! 1)\<lparr>hasUnreadUpdates := False\<rparr>) (initialRequests 0 0)
     = (initialRequests 0 0)[1 := (initialRequests 0 0 ! 1)\<lparr>hasUnreadUpdates := False\<rparr>]
   \<and> updateRequest ((initialRequests 0 0 ! 1)\<lparr>id_req := ascii ''req-9''\<rparr>) (initialRequests 0 0)
     = initialRequests 0 0"
proof -
  let ?u = "(initialRequests 0 0 ! 1)\<lparr>hasUnreadUpdates := False\<rparr>"
  let ?v = "(initialRequests 0 0 ! 1)\<lparr>id_req := ascii ''req-9''\<rparr>"
  have d: "distinct (map id_req (initialRequests 0 0))"
    by (simp add: initialRequests_def ascii_def)
  have l: "(1::nat) < length (initialRequests 0 0)"
    by (simp add: initialRequests_def)
  have e: "id_req (initialRequests 0 0 ! 1) = id_req ?u"
    by simp
  have n: "\<forall>r\<in>set (initialRequests 0 0). id_req r \<noteq> id_req ?v"
    by (simp add: initialRequests_def ascii_def)
  from updateRequest_replaces_matching[of ?u "initialRequests 0 0"] d l e
  have a: "updateRequest ?u (initialRequests 0 0) = (initialRequests 0 0)[1 := ?u]"
    by blast
  from updateRequest_replaces_matching[of ?v "initialRequests 0 0"] n
  have b: "updateRequest ?v (initialRequests 0 0) = initialRequests 0 0"
    by blast
  show ?thesis using a b by blast
qed

section \<open>Lookups and replacements in a collection with distinct ids\<close>

lemma find_distinct_nth:
  "distinct (map f xs) \<Longrightarrow> i < length xs \<Longrightarrow> find (\<lambda>x. f x = f (xs ! i)) xs = Some (xs ! i)"
proof (induction xs arbitrary: i)
  case Nil
  then show ?case by simp
next
  case (Cons x xs)
  show ?case
  proof (cases i)
    case 0
    then show ?thesis by simp
  next
    case (Suc j)
    with Cons.prems have "j < length xs" and "f (xs ! j) \<in> f ` set xs" and "f x \<notin> f ` set xs"
      by auto
    then have "f x \<noteq> f (xs ! j)" by metis
    with Cons Suc show ?thesis by simp
  qed
qed

lemma find_Some_unique:
  "distinct (map f xs) \<Longrightarrow> find (\<lambda>x. f x = k) xs = Some y \<Longrightarrow> x \<in> set xs \<Longrightarrow> f x = k \<Longrightarrow> x = y"
  by (induction xs) (auto split: if_splits)

lemma find_None_no_match: "find (\<lambda>x. f x = k) xs = None \<Longrightarrow> x \<in> set xs \<Longrightarrow> f x \<noteq> k"
  by (auto simp: find_None_iff)

lemma map_replace_nth:
  assumes "distinct (map f xs)" and "i < length xs" and "f u = f (xs ! i)"
  shows "map (\<lambda>r. if f r = f u then u else r) xs = xs[i := u]"
proof (rule nth_equalityI)
  show "length (map (\<lambda>r. if f r = f u then u else r) xs) = length (xs[i := u])" by simp
  fix j assume "j < length (map (\<lambda>r. if f r = f u then u else r) xs)"
  then have j: "j < length xs" by simp
  show "map (\<lambda>r. if f r = f u then u else r) xs ! j = xs[i := u] ! j"
  proof (cases "j = i")
    case True
    then show ?thesis using assms by simp
  next
    case False
    have "f (xs ! j) \<noteq> f (xs ! i)"
      using assms(1,2) j False by (metis distinct_conv_nth length_map nth_map)
    then show ?thesis using False j assms(3) by simp
  qed
qed

lemma handleStatusChange_nth:
  assumes "distinct (map id_req reqs)" and "i < length reqs"
  shows "handleStatusChange reqs (id_req (reqs ! i)) s reqs
           = reqs[i := (reqs ! i)\<lparr>status := s, hasUnreadUpdates := True\<rparr>]"
  using find_distinct_nth[OF assms] map_replace_nth[OF assms, of "(reqs ! i)\<lparr>status := s, hasUnreadUpdates := True\<rparr>"]
  by (simp add: handleStatusChange_def CompanyView_updateRequest_def)

lemma handleStatusChange_map:
  assumes "distinct (map id_req reqs)"
  shows "handleStatusChange reqs rid s reqs
           = map (\<lambda>r. if id_req r = rid then r\<lparr>status := s, hasUnreadUpdates := True\<rparr> else r) reqs"
proof (cases "find (\<lambda>r. id_req r = rid) reqs")
  case None
  then have "\<forall>x\<in>set reqs. id_req x \<noteq> rid" by (auto simp: find_None_iff)
  then have "map (\<lambda>r. if id_req r = rid then r\<lparr>status := s, hasUnreadUpdates := True\<rparr> else r) reqs = reqs"
    by (simp add: map_idI)
  with None show ?thesis by (simp add: handleStatusChange_def)
next
  case (Some y)
  then have y: "id_req y = rid" by (auto simp: find_Some_iff)
  have "\<forall>x\<in>set reqs. id_req x = rid \<longrightarrow> x = y"
    using find_Some_unique[OF assms Some] by blast
  with Some y show ?thesis
    by (auto simp: handleStatusChange_def CompanyView_updateRequest_def)
qed

lemma ClientView_handleSendMessage_map:
  assumes "distinct (map id_req reqs)"
  shows "ClientView_handleSendMessage reqs rid t u now reqs
           = map (\<lambda>r. if id_req r = rid
                       then r\<lparr>messages := messages r @ [\<lparr>id_msg = u, sender = Client, text_msg = t, timestamp = now\<rparr>]\<rparr>
                       else r) reqs"
proof (cases "find (\<lambda>r. id_req r = rid) reqs")
  case None
  then have "\<forall>x\<in>set reqs. id_req x \<noteq> rid" by (auto simp: find_None_iff)
  then have "map (\<lambda>r. if id_req r = rid
                       then r\<lparr>messages := messages r @ [\<lparr>id_msg = u, sender = Client, text_msg = t, timestamp = now\<rparr>]\<rparr>
                       else r) reqs = reqs"
    by (simp add: map_idI)
  with None show ?thesis by (simp add: ClientView_handleSendMessage_def)
next
  case (Some y)
  then have y: "id_req y = rid" by (auto simp: find_Some_iff)
  have "\<forall>x\<in>set reqs. id_req x = rid \<longrightarrow> x = y"
    using find_Some_unique[OF assms Some] by blast
  with Some y show ?thesis
    by (auto simp: ClientView_handleSendMessage_def updateRequest_def)
qed

lemma CompanyView_handleSendMessage_map:
  assumes "distinct (map id_req reqs)"
  shows "CompanyView_handleSendMessage reqs rid t u now reqs
           = map (\<lambda>r. if id_req r = rid
                       then r\<lparr>messages := messages r @ [\<lparr>id_msg = u, sender = Company, text_msg = t, timestamp = now\<rparr>],
                              hasUnreadUpdates := True\<rparr>
                       else r) reqs"
proof (cases "find (\<lambda>r. id_req r = rid) reqs")
  case None
  then have "\<forall>x\<in>set reqs. id_req x \<noteq> rid" by (auto simp: find_None_iff)
  then have "map (\<lambda>r. if id_req r = rid
                       then r\<lparr>messages := messages r @ [\<lparr>id_msg = u, sender = Company, text_msg = t, timestamp = now\<rparr>],
                              hasUnreadUpdates := True\<rparr>
                       else r) reqs = reqs"
    by (simp add: map_idI)
  with None show ?thesis by (simp add: CompanyView_handleSendMessage_def)
next
  case (Some y)
  then have y: "id_req y = rid" by (auto simp: find_Some_iff)
  have "\<forall>x\<in>set reqs. id_req x = rid \<longrightarrow> x = y"
    using find_Some_unique[OF assms Some] by blast
  with Some y show ?thesis
    by (auto simp: CompanyView_handleSendMessage_def CompanyView_updateRequest_def)
qed

lemma ChatInterface_handleSubmit_map:
  assumes "distinct (map id_req reqs)"
  shows "ChatInterface_handleSubmit role rid t u now reqs
           = map (\<lambda>r. if id_req r = rid \<and> trim t \<noteq> []
                       then r\<lparr>messages := messages r @ [\<lparr>id_msg = u, sender = role, text_msg = trim t, timestamp = now\<rparr>],
                              hasUnreadUpdates := (role = Company \<or> hasUnreadUpdates r)\<rparr>
                       else r) reqs"
proof (cases role)
  case Client
  then show ?thesis
    by (simp add: ChatInterface_handleSubmit_def ClientView_handleSendMessage_map[OF assms])
next
  case Company
  then show ?thesis
    by (simp add: ChatInterface_handleSubmit_def CompanyView_handleSendMessage_map[OF assms])
qed

lemma ChatInterface_handleSubmit_ids:
  assumes "distinct (map id_req reqs)"
  shows "map id_req (ChatInterface_handleSubmit role rid t u now reqs) = map id_req reqs"
  by (simp add: ChatInterface_handleSubmit_map[OF assms])

lemma ChatInterface_handleSubmit_messages:
  assumes "distinct (map id_req reqs)" and "i < length reqs"
  shows "messages (ChatInterface_handleSubmit role rid t u now reqs ! i)
           = (if id_req (reqs ! i) = rid \<and> trim t \<noteq> []
              then messages (reqs ! i) @ [\<lparr>id_msg = u, sender = role, text_msg = trim t, timestamp = now\<rparr>]
              else messages (reqs ! i))"
  using assms(2) by (simp add: ChatInterface_handleSubmit_map[OF assms(1)])

lemma ChatInterface_handleSubmit_length:
  assumes "distinct (map id_req reqs)"
  shows "length (ChatInterface_handleSubmit role rid t u now reqs) = length reqs"
  by (simp add: ChatInterface_handleSubmit_map[OF assms])

lemma send_all_prefix:
  assumes "distinct (map id_req reqs)"
  shows "length (send_all ops reqs) = length reqs
       \<and> (\<forall>i<length reqs. prefix (messages (reqs ! i)) (messages (send_all ops reqs ! i)))"
  using assms
proof (induction ops reqs rule: send_all.induct)
  case (1 reqs)
  then show ?case by simp
next
  case (2 senderType rid t u now ops reqs)
  let ?step = "ChatInterface_handleSubmit senderType rid t u now reqs"
  have d: "distinct (map id_req ?step)"
    using "2.prems" by (simp add: ChatInterface_handleSubmit_ids)
  have l: "length ?step = length reqs"
    using "2.prems" by (rule ChatInterface_handleSubmit_length)
  note ih = "2.IH"[OF d]
  show ?case
  proof (intro conjI allI impI)
    show "length (send_all ((senderType, rid, t, u, now) # ops) reqs) = length reqs"
      using ih l by simp
    fix i assume i: "i < length reqs"
    have "prefix (messages (reqs ! i)) (messages (?step ! i))"
      using ChatInterface_handleSubmit_messages[OF "2.prems" i] by simp
    moreover have "prefix (messages (?step ! i)) (messages (send_all ops ?step ! i))"
      using ih i l by simp
    ultimately show "prefix (messages (reqs ! i))
        (messages (send_all ((senderType, rid, t, u, now) # ops) reqs ! i))"
      by (simp add: prefix_order.order_trans)
  qed
qed

lemma ChatInterface_handleSubmit_message_ids:
  assumes "distinct (map id_req reqs)" and "r' \<in> set (ChatInterface_handleSubmit role rid t u now reqs)"
    and "x \<in> id_msg ` set (messages r')"
  shows "x = u \<or> (\<exists>r\<in>set reqs. x \<in> id_msg ` set (messages r))"
proof -
  from assms(2) obtain r where r: "r \<in> set reqs"
    and r': "r' = r \<or> r' = r\<lparr>messages := messages r @ [\<lparr>id_msg = u, sender = role, text_msg = trim t, timestamp = now\<rparr>],
                              hasUnreadUpdates := (role = Company \<or> hasUnreadUpdates r)\<rparr>"
    unfolding ChatInterface_handleSubmit_map[OF assms(1)] by (auto split: if_splits)
  from r' assms(3) have "x = u \<or> x \<in> id_msg ` set (messages r)"
    by auto
  with r show ?thesis by blast
qed

lemma ChatInterface_handleSubmit_distinct:
  assumes "distinct (map id_req reqs)"
    and "\<forall>r\<in>set reqs. distinct (map id_msg (messages r))"
    and "\<forall>r\<in>set reqs. u \<notin> id_msg ` set (messages r)"
    and "r' \<in> set (ChatInterface_handleSubmit role rid t u now reqs)"
  shows "distinct (map id_msg (messages r'))"
  using assms(2,3,4) unfolding ChatInterface_handleSubmit_map[OF assms(1)]
  by (auto split: if_splits)

lemma send_all_distinct:
  assumes "distinct (map id_req reqs)"
    and "\<forall>r\<in>set reqs. distinct (map id_msg (messages r))"
    and "distinct (map (\<lambda>op. fst (snd (snd (snd op)))) ops)"
    and "\<forall>op\<in>set ops. \<forall>r\<in>set reqs. fst (snd (snd (snd op))) \<notin> id_msg ` set (messages r)"
  shows "\<forall>r\<in>set (send_all ops reqs). distinct (map id_msg (messages r))"
  using assms
proof (induction ops reqs rule: send_all.induct)
  case (1 reqs)
  then show ?case by simp
next
  case (2 senderType rid t u now ops reqs)
  let ?step = "ChatInterface_handleSubmit senderType rid t u now reqs"
  have d: "distinct (map id_req ?step)"
    using "2.prems"(1) by (simp add: ChatInterface_handleSubmit_ids)
  have fresh_u: "\<forall>r\<in>set reqs. u \<notin> id_msg ` set (messages r)"
    using "2.prems"(4) by simp
  have m: "\<forall>r\<in>set ?step. distinct (map id_msg (messages r))"
    using ChatInterface_handleSubmit_distinct[OF "2.prems"(1,2) fresh_u] by blast
  have o: "distinct (map (\<lambda>op. fst (snd (snd (snd op)))) ops)"
    using "2.prems"(3) by simp
  have f: "\<forall>op\<in>set ops. \<forall>r\<in>set ?step. fst (snd (snd (snd op))) \<notin> id_msg ` set (messages r)"
  proof (intro ballI notI)
    fix op r' assume op: "op \<in> set ops" and r': "r' \<in> set ?step"
      and x: "fst (snd (snd (snd op))) \<in> id_msg ` set (messages r')"
    from ChatInterface_handleSubmit_message_ids[OF "2.prems"(1) r' x]
    have "fst (snd (snd (snd op))) = u \<or> (\<exists>r\<in>set reqs. fst (snd (snd (snd op))) \<in> id_msg ` set (messages r))" .
    moreover have "fst (snd (snd (snd op))) \<noteq> u"
      using "2.prems"(3) op by auto
    moreover have "\<forall>r\<in>set reqs. fst (snd (snd (snd op))) \<notin> id_msg ` set (messages r)"
      using "2.prems"(4) op by simp
    ultimately show False by blast
  qed
  show ?case using "2.IH"[OF d m o f] by simp
qed

section \<open>Status transitions\<close>

lemma handleStatusChange_unknown_id:
  "\<forall>r\<in>set reqs. id_req r \<noteq> rid \<Longrightarrow> handleStatusChange reqs rid s prev = prev"
proof -
  assume "\<forall>r\<in>set reqs. id_req r \<noteq> rid"
  then have "find (\<lambda>r. id_req r = rid) reqs = None"
    by (simp add: find_None_iff)
  then show ?thesis by (simp add: handleStatusChange_def)
qed

lemma button_disabled_iff: "button_disabled b st \<longleftrightarrow> \<not> allowed_edge st (button_status b)"
  by (cases b; cases st) (simp_all add: allowed_edge_def)

text \<open>
  C1, as stated, fails: \<^verbatim>\<open>handleStatusChange\<close> has no check of the current status.
  Called with the id of a Completed request and the status Pending, it sets the request
  back to Pending.
\<close>

theorem handleStatusChange_unguarded:
  "handleStatusChange [(hd (initialRequests 0 0))\<lparr>status := Completed\<rparr>] (ascii ''req-1'') Pending
       [(hd (initialRequests 0 0))\<lparr>status := Completed\<rparr>]
     = [(hd (initialRequests 0 0))\<lparr>status := Pending, hasUnreadUpdates := True\<rparr>]"
  by (simp add: handleStatusChange_def CompanyView_updateRequest_def initialRequests_def)

text \<open>
  C1, amended. \<^verbatim>\<open>handleStatusChange\<close> has no guard: in a collection with distinct ids,
  called with the id of a request and any status, it puts that status and
  \<^verbatim>\<open>hasUnreadUpdates = true\<close> on that request, whatever its status was, and leaves the
  others as they are; called with an id that no request has, it changes nothing. The guard
  is in the buttons of the card: a button is disabled exactly when the state machine has
  no edge from the request's status to the status the button asks for, so every button
  of a Completed or Cancelled request is disabled, and a disabled button changes neither
  the collection nor the dialog. An enabled confirm button sets this request, and no
  other, to Confirmed, an enabled complete button to Completed. An enabled cancel button
  changes no request and opens the dialog for the request's id. The confirmation of that
  dialog, when the request's status then has an edge to Cancelled and its id is not empty,
  sets this request, and no other, to Cancelled and closes the dialog.
\<close>

theorem status_change_guarded_by_buttons:
  assumes "distinct (map id_req reqs)" and "i < length reqs"
  shows "handleStatusChange reqs (id_req (reqs ! i)) s reqs
           = reqs[i := (reqs ! i)\<lparr>status := s, hasUnreadUpdates := True\<rparr>]
       \<and> ((\<forall>r\<in>set reqs. id_req r \<noteq> rid) \<longrightarrow> handleStatusChange reqs rid s reqs = reqs)
       \<and> (button_disabled b st \<longleftrightarrow> \<not> allowed_edge st (button_status b))
       \<and> (st = Completed \<or> st = Cancelled \<longrightarrow> button_disabled b st)
       \<and> (button_disabled b (status (reqs ! i)) \<longrightarrow> click_button b (reqs ! i) (reqs, m) = (reqs, m))
       \<and> (\<not> button_disabled ConfirmButton (status (reqs ! i)) \<longrightarrow>
            click_button ConfirmButton (reqs ! i) (reqs, m)
              = (reqs[i := (reqs ! i)\<lparr>status := Confirmed, hasUnreadUpdates := True\<rparr>], m))
       \<and> (\<not> button_disabled CompleteButton (status (reqs ! i)) \<longrightarrow>
            click_button CompleteButton (reqs ! i) (reqs, m)
              = (reqs[i := (reqs ! i)\<lparr>status := Completed, hasUnreadUpdates := True\<rparr>], m))
       \<and> (\<not> button_disabled CancelButton (status (reqs ! i)) \<longrightarrow>
            click_button CancelButton (reqs ! i) (reqs, m)
              = (reqs, \<lparr>isOpen = True, action = Some cancelRequest, requestId = Some (id_req (reqs ! i))\<rparr>))
       \<and> (allowed_edge (status (reqs ! i)) Cancelled \<and> id_req (reqs ! i) \<noteq> [] \<longrightarrow>
            handleConfirmAction
                \<lparr>isOpen = True, action = Some cancelRequest, requestId = Some (id_req (reqs ! i))\<rparr> reqs reqs
              = (reqs[i := (reqs ! i)\<lparr>status := Cancelled, hasUnreadUpdates := True\<rparr>],
                 \<lparr>isOpen = False, action = None, requestId = None\<rparr>))"
proof (intro conjI impI)
  note h = handleStatusChange_nth[OF assms]
  show "handleStatusChange reqs (id_req (reqs ! i)) s reqs
           = reqs[i := (reqs ! i)\<lparr>status := s, hasUnreadUpdates := True\<rparr>]"
    by (rule h)
  show "handleStatusChange reqs rid s reqs = reqs" if "\<forall>r\<in>set reqs. id_req r \<noteq> rid"
    using that by (rule handleStatusChange_unknown_id)
  show "button_disabled b st \<longleftrightarrow> \<not> allowed_edge st (button_status b)"
    by (rule button_disabled_iff)
  show "button_disabled b st" if "st = Completed \<or> st = Cancelled"
    using that by (cases b) auto
  show "click_button b (reqs ! i) (reqs, m) = (reqs, m)" if "button_disabled b (status (reqs ! i))"
    using that by (simp add: click_button_def)
  show "click_button ConfirmButton (reqs ! i) (reqs, m)
              = (reqs[i := (reqs ! i)\<lparr>status := Confirmed, hasUnreadUpdates := True\<rparr>], m)"
    if "\<not> button_disabled ConfirmButton (status (reqs ! i))"
    using that by (simp add: click_button_def h)
  show "click_button CompleteButton (reqs ! i) (reqs, m)
              = (reqs[i := (reqs ! i)\<lparr>status := Completed, hasUnreadUpdates := True\<rparr>], m)"
    if "\<not> button_disabled CompleteButton (status (reqs ! i))"
    using that by (simp add: click_button_def h)
  show "click_button CancelButton (reqs ! i) (reqs, m)
              = (reqs, \<lparr>isOpen = True, action = Some cancelRequest, requestId = Some (id_req (reqs ! i))\<rparr>)"
    if "\<not> button_disabled CancelButton (status (reqs ! i))"
    using that by (simp add: click_button_def)
  show "handleConfirmAction
                \<lparr>isOpen = True, action = Some cancelRequest, requestId = Some (id_req (reqs ! i))\<rparr> reqs reqs
              = (reqs[i := (reqs ! i)\<lparr>status := Cancelled, hasUnreadUpdates := True\<rparr>],
                 \<lparr>isOpen = False, action = None, requestId = None\<rparr>)"
    if "allowed_edge (status (reqs ! i)) Cancelled \<and> id_req (reqs ! i) \<noteq> []"
    using that by (simp add: handleConfirmAction_def h)
qed

theorem status_change_guarded_by_buttons_witness:
  "handleStatusChange (initialRequests 0 0) (ascii ''req-2'') Pending (initialRequests 0 0)
     = (initialRequests 0 0)[1 := (initialRequests 0 0 ! 1)\<lparr>status := Pending, hasUnreadUpdates := True\<rparr>]
   \<and> handleStatusChange (initialRequests 0 0) (ascii ''req-9'') Completed (initialRequests 0 0)
     = initialRequests 0 0
   \<and> button_disabled CancelButton Completed
   \<and> click_button ConfirmButton (initialRequests 0 0 ! 0)
       (initialRequests 0 0, \<lparr>isOpen = False, action = None, requestId = None\<rparr>)
     = ((initialRequests 0 0)[0 := (initialRequests 0 0 ! 0)\<lparr>status := Confirmed, hasUnreadUpdates := True\<rparr>],
        \<lparr>isOpen = False, action = None, requestId = None\<rparr>)
   \<and> click_button ConfirmButton (initialRequests 0 0 ! 1)
       (initialRequests 0 0, \<lparr>isOpen = False, action = None, requestId = None\<rparr>)
     = (initialRequests 0 0, \<lparr>isOpen = False, action = None, requestId = None\<rparr>)
   \<and> click_button CancelButton (initialRequests 0 0 ! 1)
       (initialRequests 0 0, \<lparr>isOpen = False, action = None, requestId = None\<rparr>)
     = (initialRequests 0 0,
        \<lparr>isOpen = True, action = Some cancelRequest, requestId = Some (id_req (initialRequests 0 0 ! 1))\<rparr>)
   \<and> handleConfirmAction
       \<lparr>isOpen = True, action = Some cancelRequest, requestId = Some (id_req (initialRequests 0 0 ! 1))\<rparr>
       (initialRequests 0 0) (initialRequests 0 0)
     = ((initialRequests 0 0)[1 := (initialRequests 0 0 ! 1)\<lparr>status := Cancelled, hasUnreadUpdates := True\<rparr>],
        \<lparr>isOpen = False, action = None, requestId = None\<rparr>)"
proof -
  let ?m = "\<lparr>isOpen = False, action = None, requestId = None\<rparr>"
  have d: "distinct (map id_req (initialRequests 0 0))"
    by (simp add: initialRequests_def ascii_def)
  have l0: "(0::nat) < length (initialRequests 0 0)" and l1: "(1::nat) < length (initialRequests 0 0)"
    by (simp_all add: initialRequests_def)
  have i1: "id_req (initialRequests 0 0 ! 1) = ascii ''req-2''"
    by (simp add: initialRequests_def)
  have u: "\<forall>r\<in>set (initialRequests 0 0). id_req r \<noteq> ascii ''req-9''"
    by (simp add: initialRequests_def ascii_def)
  have e0: "\<not> button_disabled ConfirmButton (status (initialRequests 0 0 ! 0))"
    by (simp add: initialRequests_def)
  have e1: "button_disabled ConfirmButton (status (initialRequests 0 0 ! 1))"
    and c1: "\<not> button_disabled CancelButton (status (initialRequests 0 0 ! 1))"
    and a1: "allowed_edge (status (initialRequests 0 0 ! 1)) Cancelled"
    and n1: "id_req (initialRequests 0 0 ! 1) \<noteq> []"
    by (simp_all add: initialRequests_def ascii_def allowed_edge_def)
  note t0 = status_change_guarded_by_buttons[OF d l0, of Pending "ascii ''req-9''" ConfirmButton Completed ?m]
  note t1 = status_change_guarded_by_buttons[OF d l1, of Pending "ascii ''req-9''" ConfirmButton Completed ?m]
  note t2 = status_change_guarded_by_buttons[OF d l1, of Completed "ascii ''req-9''" CancelButton Completed ?m]
  from t1 i1 have 1: "handleStatusChange (initialRequests 0 0) (ascii ''req-2'') Pending (initialRequests 0 0)
     = (initialRequests 0 0)[1 := (initialRequests 0 0 ! 1)\<lparr>status := Pending, hasUnreadUpdates := True\<rparr>]"
    by simp
  from t2 u have 2: "handleStatusChange (initialRequests 0 0) (ascii ''req-9'') Completed (initialRequests 0 0)
     = initialRequests 0 0"
    by blast
  from t2 have 3: "button_disabled CancelButton Completed"
    by blast
  from t0 e0 have 4: "click_button ConfirmButton (initialRequests 0 0 ! 0) (initialRequests 0 0, ?m)
     = ((initialRequests 0 0)[0 := (initialRequests 0 0 ! 0)\<lparr>status := Confirmed, hasUnreadUpdates := True\<rparr>], ?m)"
    by blast
  from t1 e1 have 5: "click_button ConfirmButton (initialRequests 0 0 ! 1) (initialRequests 0 0, ?m)
     = (initialRequests 0 0, ?m)"
    by blast
  from t1 c1 have 6: "click_button CancelButton (initialRequests 0 0 ! 1) (initialRequests 0 0, ?m)
     = (initialRequests 0 0,
        \<lparr>isOpen = True, action = Some cancelRequest, requestId = Some (id_req (initialRequests 0 0 ! 1))\<rparr>)"
    by blast
  from t1 a1 n1 have 7: "handleConfirmAction
       \<lparr>isOpen = True, action = Some cancelRequest, requestId = Some (id_req (initialRequests 0 0 ! 1))\<rparr>
       (initialRequests 0 0) (initialRequests 0 0)
     = ((initialRequests 0 0)[1 := (initialRequests 0 0 ! 1)\<lparr>status := Cancelled, hasUnreadUpdates := True\<rparr>], ?m)"
    by blast
  show ?thesis using 1 2 3 4 5 6 7 by blast
qed

text \<open>
  The statement about the dialog is about the collection at the time of the confirmation,
  because \<^verbatim>\<open>handleConfirmAction\<close> does not read the status and the buttons of the cards
  are not disabled while the dialog is open: after the cancel button and then the
  complete button of a Pending request, the confirmation of the dialog takes the request
  from Completed to Cancelled, which is no edge.
\<close>

lemma cancel_confirmed_after_complete:
  "status (fst (click_button CompleteButton (initialRequests 0 0 ! 0)
             (click_button CancelButton (initialRequests 0 0 ! 0)
                (initialRequests 0 0, \<lparr>isOpen = False, action = None, requestId = None\<rparr>))) ! 0)
     = Completed
   \<and> status (fst (handleConfirmAction
        (snd (click_button CompleteButton (initialRequests 0 0 ! 0)
               (click_button CancelButton (initialRequests 0 0 ! 0)
                  (initialRequests 0 0, \<lparr>isOpen = False, action = None, requestId = None\<rparr>))))
        (fst (click_button CompleteButton (initialRequests 0 0 ! 0)
               (click_button CancelButton (initialRequests 0 0 ! 0)
                  (initialRequests 0 0, \<lparr>isOpen = False, action = None, requestId = None\<rparr>))))
        (fst (click_button CompleteButton (initialRequests 0 0 ! 0)
               (click_button CancelButton (initialRequests 0 0 ! 0)
                  (initialRequests 0 0, \<lparr>isOpen = False, action = None, requestId = None\<rparr>))))) ! 0)
     = Cancelled
   \<and> \<not> allowed_edge Completed Cancelled"
  by (simp add: click_button_def handleConfirmAction_def handleStatusChange_def
      CompanyView_updateRequest_def initialRequests_def ascii_def allowed_edge_def)

section \<open>The unread flag\<close>

text \<open>
  C4. In a collection with distinct ids, \<^verbatim>\<open>handleStatusChange\<close> puts the new status
  and \<^verbatim>\<open>hasUnreadUpdates = true\<close> on the request with the given id, whatever the status
  and the flag were, and leaves the other requests as they are; a message sent from the
  operator's view sets the flag of its request; a message sent from the requester's view
  leaves the flag of every request as it is.
\<close>

theorem unread_flag_updates:
  assumes "distinct (map id_req reqs)"
  shows "(\<forall>i<length reqs. handleStatusChange reqs rid s reqs ! i =
            (if id_req (reqs ! i) = rid then (reqs ! i)\<lparr>status := s, hasUnreadUpdates := True\<rparr> else reqs ! i))
       \<and> (\<forall>i<length reqs. id_req (reqs ! i) = rid \<longrightarrow>
            hasUnreadUpdates (CompanyView_handleSendMessage reqs rid t u now reqs ! i))
       \<and> map hasUnreadUpdates (ClientView_handleSendMessage reqs rid t u now reqs) = map hasUnreadUpdates reqs"
proof (intro conjI)
  show "\<forall>i<length reqs. handleStatusChange reqs rid s reqs ! i =
            (if id_req (reqs ! i) = rid then (reqs ! i)\<lparr>status := s, hasUnreadUpdates := True\<rparr> else reqs ! i)"
    by (simp add: handleStatusChange_map[OF assms])
  show "\<forall>i<length reqs. id_req (reqs ! i) = rid \<longrightarrow>
            hasUnreadUpdates (CompanyView_handleSendMessage reqs rid t u now reqs ! i)"
    by (simp add: CompanyView_handleSendMessage_map[OF assms])
  show "map hasUnreadUpdates (ClientView_handleSendMessage reqs rid t u now reqs) = map hasUnreadUpdates reqs"
    by (simp add: ClientView_handleSendMessage_map[OF assms])
qed

theorem unread_flag_updates_witness:
  "handleStatusChange (initialRequests 0 0) (ascii ''req-1'') Completed (initialRequests 0 0) ! 0
     = (initialRequests 0 0 ! 0)\<lparr>status := Completed, hasUnreadUpdates := True\<rparr>
   \<and> hasUnreadUpdates (CompanyView_handleSendMessage (initialRequests 0 0) (ascii ''req-1'')
        (ascii ''ok'') (ascii ''m-1'') 7 (initialRequests 0 0) ! 0)
   \<and> map hasUnreadUpdates (ClientView_handleSendMessage (initialRequests 0 0) (ascii ''req-1'')
        (ascii ''ok'') (ascii ''m-1'') 7 (initialRequests 0 0)) = [False, True]"
proof -
  have d: "distinct (map id_req (initialRequests 0 0))"
    by (simp add: initialRequests_def ascii_def)
  have l: "(0::nat) < length (initialRequests 0 0)"
    by (simp add: initialRequests_def)
  have i: "id_req (initialRequests 0 0 ! 0) = ascii ''req-1''"
    by (simp add: initialRequests_def)
  have f: "map hasUnreadUpdates (initialRequests 0 0) = [False, True]"
    by (simp add: initialRequests_def)
  note t = unread_flag_updates[OF d, of "ascii ''req-1''" Completed "ascii ''ok''" "ascii ''m-1''" 7]
  from t l i have a: "handleStatusChange (initialRequests 0 0) (ascii ''req-1'') Completed (initialRequests 0 0) ! 0
     = (initialRequests 0 0 ! 0)\<lparr>status := Completed, hasUnreadUpdates := True\<rparr>"
    by simp
  from t l i have b: "hasUnreadUpdates (CompanyView_handleSendMessage (initialRequests 0 0) (ascii ''req-1'')
        (ascii ''ok'') (ascii ''m-1'') 7 (initialRequests 0 0) ! 0)"
    by blast
  from t f have c: "map hasUnreadUpdates (ClientView_handleSendMessage (initialRequests 0 0) (ascii ''req-1'')
        (ascii ''ok'') (ascii ''m-1'') 7 (initialRequests 0 0)) = [False, True]"
    by simp
  show ?thesis using a b c by blast
qed

section \<open>Clearing the completed requests\<close>

text \<open>
  C5. When the dialog is confirmed for the action \<^verbatim>\<open>clearCompleted\<close>, the new collection
  is the old one without its Completed requests: it has no Completed request, it has
  exactly the requests of the old collection that are not Completed, each as it was, and
  it keeps their order.
\<close>

theorem clear_completed:
  assumes "action m = Some clearCompleted"
  shows "fst (handleConfirmAction m reqs prev) = filter (\<lambda>r. status r \<noteq> Completed) prev
       \<and> (\<forall>r\<in>set (fst (handleConfirmAction m reqs prev)). status r \<noteq> Completed)
       \<and> set (fst (handleConfirmAction m reqs prev)) = {r \<in> set prev. status r \<noteq> Completed}
       \<and> subseq (fst (handleConfirmAction m reqs prev)) prev"
  using assms by (auto simp: handleConfirmAction_def Let_def split: option.splits)

theorem clear_completed_witness:
  "fst (handleConfirmAction \<lparr>isOpen = True, action = Some clearCompleted, requestId = None\<rparr>
          [(initialRequests 0 0 ! 0)\<lparr>status := Completed\<rparr>, initialRequests 0 0 ! 1]
          [(initialRequests 0 0 ! 0)\<lparr>status := Completed\<rparr>, initialRequests 0 0 ! 1])
     = [initialRequests 0 0 ! 1]"
proof -
  have a: "action \<lparr>isOpen = True, action = Some clearCompleted, requestId = None\<rparr> = Some clearCompleted"
    by simp
  have f: "filter (\<lambda>r. status r \<noteq> Completed)
             [(initialRequests 0 0 ! 0)\<lparr>status := Completed\<rparr>, initialRequests 0 0 ! 1]
           = [initialRequests 0 0 ! 1]"
    by (simp add: initialRequests_def)
  from clear_completed[OF a, of "[(initialRequests 0 0 ! 0)\<lparr>status := Completed\<rparr>, initialRequests 0 0 ! 1]"
      "[(initialRequests 0 0 ! 0)\<lparr>status := Completed\<rparr>, initialRequests 0 0 ! 1]"]
  have "fst (handleConfirmAction \<lparr>isOpen = True, action = Some clearCompleted, requestId = None\<rparr>
          [(initialRequests 0 0 ! 0)\<lparr>status := Completed\<rparr>, initialRequests 0 0 ! 1]
          [(initialRequests 0 0 ! 0)\<lparr>status := Completed\<rparr>, initialRequests 0 0 ! 1])
     = filter (\<lambda>r. status r \<noteq> Completed)
             [(initialRequests 0 0 ! 0)\<lparr>status := Completed\<rparr>, initialRequests 0 0 ! 1]"
    by blast
  from this f show ?thesis by (rule trans)
qed

section \<open>Messages are appended\<close>

text \<open>
  C9. In a collection with distinct ids, a message submitted from either view changes the
  message list of the request with the given id by adding the new message at the end (a
  blank message changes nothing), and the message lists of the other requests not at
  all. After any sequence of submissions the collection has the same length and the
  messages of every request begin with the messages it had. When the message ids of every
  request were distinct, and the generated ids are distinct from each other and from the
  message ids present, the message ids of every request are distinct after the sequence.
\<close>

theorem messages_append_only:
  assumes "distinct (map id_req reqs)"
  shows "(\<forall>i<length reqs.
            messages (ChatInterface_handleSubmit role rid t u now reqs ! i)
              = (if id_req (reqs ! i) = rid \<and> trim t \<noteq> []
                 then messages (reqs ! i) @ [\<lparr>id_msg = u, sender = role, text_msg = trim t, timestamp = now\<rparr>]
                 else messages (reqs ! i)))
       \<and> length (send_all ops reqs) = length reqs
       \<and> (\<forall>i<length reqs. prefix (messages (reqs ! i)) (messages (send_all ops reqs ! i)))
       \<and> ((\<forall>r\<in>set reqs. distinct (map id_msg (messages r)))
            \<and> distinct (map (\<lambda>op. fst (snd (snd (snd op)))) ops)
            \<and> (\<forall>op\<in>set ops. \<forall>r\<in>set reqs. fst (snd (snd (snd op))) \<notin> id_msg ` set (messages r))
          \<longrightarrow> (\<forall>r\<in>set (send_all ops reqs). distinct (map id_msg (messages r))))"
  using ChatInterface_handleSubmit_messages[OF assms] send_all_prefix[OF assms]
    send_all_distinct[OF assms]
  by blast

theorem messages_append_only_witness:
  "messages (ChatInterface_handleSubmit Client (ascii ''req-2'') (ascii '' hi '') (ascii ''m-1'') 7
       (initialRequests 0 0) ! 1)
     = messages (initialRequests 0 0 ! 1)
         @ [\<lparr>id_msg = ascii ''m-1'', sender = Client, text_msg = ascii ''hi'', timestamp = 7\<rparr>]
   \<and> prefix (messages (initialRequests 0 0 ! 1))
        (messages (send_all [(Client, ascii ''req-2'', ascii '' hi '', ascii ''m-1'', 7),
                             (Company, ascii ''req-2'', ascii ''ok'', ascii ''m-2'', 8)]
                    (initialRequests 0 0) ! 1))
   \<and> list_all (\<lambda>r. distinct (map id_msg (messages r)))
        (send_all [(Client, ascii ''req-2'', ascii '' hi '', ascii ''m-1'', 7),
                   (Company, ascii ''req-2'', ascii ''ok'', ascii ''m-2'', 8)]
           (initialRequests 0 0))"
proof -
  let ?ops = "[(Client, ascii ''req-2'', ascii '' hi '', ascii ''m-1'', 7),
               (Company, ascii ''req-2'', ascii ''ok'', ascii ''m-2'', 8::int)]"
  have d: "distinct (map id_req (initialRequests 0 0))"
    by (simp add: initialRequests_def ascii_def)
  have l: "(1::nat) < length (initialRequests 0 0)"
    by (simp add: initialRequests_def)
  have i: "id_req (initialRequests 0 0 ! 1) = ascii ''req-2''"
    by (simp add: initialRequests_def)
  have t: "trim (ascii '' hi '') = ascii ''hi''"
    by (simp add: trim_def is_white_space_def ascii_def)
  have ne: "ascii ''hi'' \<noteq> []"
    by (simp add: ascii_def)
  have m: "\<forall>r\<in>set (initialRequests 0 0). distinct (map id_msg (messages r))"
    by (simp add: initialRequests_def ascii_def)
  have u: "distinct (map (\<lambda>op. fst (snd (snd (snd op)))) ?ops)"
    by (simp add: ascii_def)
  have f: "\<forall>op\<in>set ?ops. \<forall>r\<in>set (initialRequests 0 0). fst (snd (snd (snd op))) \<notin> id_msg ` set (messages r)"
    by (simp add: initialRequests_def ascii_def)
  note th = messages_append_only[OF d, of Client "ascii ''req-2''" "ascii '' hi ''" "ascii ''m-1''" 7 ?ops]
  from th l i t ne have a: "messages (ChatInterface_handleSubmit Client (ascii ''req-2'') (ascii '' hi '') (ascii ''m-1'') 7
       (initialRequests 0 0) ! 1)
     = messages (initialRequests 0 0 ! 1)
         @ [\<lparr>id_msg = ascii ''m-1'', sender = Client, text_msg = ascii ''hi'', timestamp = 7\<rparr>]"
    by simp
  from th l have b: "prefix (messages (initialRequests 0 0 ! 1)) (messages (send_all ?ops (initialRequests 0 0) ! 1))"
    by blast
  from th m u f have "\<forall>r\<in>set (send_all ?ops (initialRequests 0 0)). distinct (map id_msg (messages r))"
    by blast
  then have c: "list_all (\<lambda>r. distinct (map id_msg (messages r))) (send_all ?ops (initialRequests 0 0))"
    by (simp only: list_all_iff)
  show ?thesis using a b c by blast
qed

section \<open>Validation of the form\<close>

lemma validateForm_errors:
  "fst (validateForm fd)
     = map (\<lambda>k. (k, required_message)) (filter (\<lambda>k. trim (formData_get fd k) = []) Object_keys_formData)"
  by (simp add: validateForm_def Object_keys_formData_def)

lemma validateForm_valid:
  "snd (validateForm fd) = (\<forall>k. trim (formData_get fd k) \<noteq> [])"
proof -
  have "(\<forall>k. trim (formData_get fd k) \<noteq> []) =
        (trim (standNumber fd) \<noteq> [] \<and> trim (airline fd) \<noteq> [] \<and> trim (flightNumber fd) \<noteq> []
         \<and> trim (representativeName fd) \<noteq> [])"
  proof
    assume a: "\<forall>k. trim (formData_get fd k) \<noteq> []"
    from a[rule_format, of Key_standNumber] a[rule_format, of Key_airline]
      a[rule_format, of Key_flightNumber] a[rule_format, of Key_representativeName]
    show "trim (standNumber fd) \<noteq> [] \<and> trim (airline fd) \<noteq> [] \<and> trim (flightNumber fd) \<noteq> []
         \<and> trim (representativeName fd) \<noteq> []" by simp
  next
    assume a: "trim (standNumber fd) \<noteq> [] \<and> trim (airline fd) \<noteq> [] \<and> trim (flightNumber fd) \<noteq> []
         \<and> trim (representativeName fd) \<noteq> []"
    show "\<forall>k. trim (formData_get fd k) \<noteq> []"
    proof
      fix k show "trim (formData_get fd k) \<noteq> []" using a by (cases k) simp_all
    qed
  qed
  then show ?thesis
    by (simp add: validateForm_def Object_keys_formData_def)
qed

text \<open>
  C6. When one of the four fields of the form is blank after trimming, \<^verbatim>\<open>handleSubmit\<close>
  changes the errors only: they get the required-field message for exactly the blank
  fields; the collection is not changed and no timer is set, so nothing is added later
  either. When no field is blank, the errors are empty, the collection is not changed yet,
  and a timer of 500 ms is set whose expiry puts the new request, with the four fields of
  the form, a generated id, the requester id of the device, the status Pending, no
  messages and no unread updates, in front of the collection.
\<close>

theorem handleSubmit_validates:
  "((\<exists>k. trim (formData_get (formData w) k) = []) \<longrightarrow>
       handleSubmit w = w\<lparr>errors := map (\<lambda>k. (k, required_message))
                            (filter (\<lambda>k. trim (formData_get (formData w) k) = []) Object_keys_formData)\<rparr>
       \<and> requests (handleSubmit w) = requests w
       \<and> timers (handleSubmit w) = timers w)
   \<and> ((\<forall>k. trim (formData_get (formData w) k) \<noteq> []) \<longrightarrow>
       requests (handleSubmit w) = requests w
       \<and> errors (handleSubmit w) = []
       \<and> timers (handleSubmit w) = timers w @ [(500, SubmitCallback (formData w))]
       \<and> requests (fire_timer uuid cid (length (timers w)) (handleSubmit w))
           = \<lparr> standNumber = standNumber (formData w), airline = airline (formData w),
               flightNumber = flightNumber (formData w),
               representativeName = representativeName (formData w),
               id_req = uuid, clientId = cid, status = Pending, messages = [],
               hasUnreadUpdates = False \<rparr> # requests w)"
proof (intro conjI impI)
  assume "\<exists>k. trim (formData_get (formData w) k) = []"
  then have nv: "\<not> snd (validateForm (formData w))"
    by (simp add: validateForm_valid)
  then show h: "handleSubmit w = w\<lparr>errors := map (\<lambda>k. (k, required_message))
                            (filter (\<lambda>k. trim (formData_get (formData w) k) = []) Object_keys_formData)\<rparr>"
    using validateForm_errors[of "formData w"]
    by (simp add: handleSubmit_def split_beta Let_def)
  show "requests (handleSubmit w) = requests w" by (simp add: h)
  show "timers (handleSubmit w) = timers w" by (simp add: h)
next
  assume a: "\<forall>k. trim (formData_get (formData w) k) \<noteq> []"
  then have v: "snd (validateForm (formData w))"
    by (simp add: validateForm_valid)
  have e: "fst (validateForm (formData w)) = []"
    using a by (simp add: validateForm_errors)
  have h: "handleSubmit w = w\<lparr>errors := [], isSubmitting := True,
                 timers := timers w @ [(500, SubmitCallback (formData w))]\<rparr>"
    using v e by (simp add: handleSubmit_def split_beta Let_def)
  show "requests (handleSubmit w) = requests w" by (simp add: h)
  show "errors (handleSubmit w) = []" by (simp add: h)
  show "timers (handleSubmit w) = timers w @ [(500, SubmitCallback (formData w))]" by (simp add: h)
  show "requests (fire_timer uuid cid (length (timers w)) (handleSubmit w))
           = \<lparr> standNumber = standNumber (formData w), airline = airline (formData w),
               flightNumber = flightNumber (formData w),
               representativeName = representativeName (formData w),
               id_req = uuid, clientId = cid, status = Pending, messages = [],
               hasUnreadUpdates = False \<rparr> # requests w"
    by (simp add: h fire_timer_def addRequest_def)
qed

theorem handleSubmit_validates_witness:
  "handleSubmit
     \<lparr>requests = [], formData = \<lparr>standNumber = ascii '' '', airline = ascii ''Test Air'',
                                   flightNumber = ascii ''T1'', representativeName = []\<rparr>,
      errors = [], isSubmitting = False, showSuccess = False, openChatId = None, timers = []\<rparr>
   = \<lparr>requests = [], formData = \<lparr>standNumber = ascii '' '', airline = ascii ''Test Air'',
                                   flightNumber = ascii ''T1'', representativeName = []\<rparr>,
      errors = [(Key_standNumber, required_message), (Key_representativeName, required_message)],
      isSubmitting = False, showSuccess = False, openChatId = None, timers = []\<rparr>
   \<and> requests (fire_timer (ascii ''id-1'') (ascii ''me'') 0
        (handleSubmit
          \<lparr>requests = [], formData = \<lparr>standNumber = ascii ''B7'', airline = ascii ''Test Air'',
                                        flightNumber = ascii ''T1'', representativeName = ascii ''X''\<rparr>,
           errors = [], isSubmitting = False, showSuccess = False, openChatId = None, timers = []\<rparr>))
     = [\<lparr>standNumber = ascii ''B7'', airline = ascii ''Test Air'', flightNumber = ascii ''T1'',
         representativeName = ascii ''X'', id_req = ascii ''id-1'', clientId = ascii ''me'',
         status = Pending, messages = [], hasUnreadUpdates = False\<rparr>]"
proof -
  let ?bad = "\<lparr>standNumber = ascii '' '', airline = ascii ''Test Air'',
               flightNumber = ascii ''T1'', representativeName = []\<rparr>"
  let ?good = "\<lparr>standNumber = ascii ''B7'', airline = ascii ''Test Air'',
                flightNumber = ascii ''T1'', representativeName = ascii ''X''\<rparr>"
  let ?w = "\<lambda>fd. \<lparr>requests = [], formData = fd, errors = [], isSubmitting = False,
                  showSuccess = False, openChatId = None, timers = []\<rparr>"
  have blank: "\<exists>k. trim (formData_get (formData (?w ?bad)) k) = []"
    by (rule exI[of _ Key_representativeName]) (simp add: trim_def)
  have keys: "filter (\<lambda>k. trim (formData_get (formData (?w ?bad)) k) = []) Object_keys_formData
                = [Key_standNumber, Key_representativeName]"
    by (simp add: Object_keys_formData_def trim_def is_white_space_def ascii_def)
  have filled: "\<forall>k. trim (formData_get (formData (?w ?good)) k) \<noteq> []"
  proof
    fix k show "trim (formData_get (formData (?w ?good)) k) \<noteq> []"
      by (cases k) (simp_all add: trim_def is_white_space_def ascii_def)
  qed
  from handleSubmit_validates[of "?w ?bad"] blank keys
  have a: "handleSubmit (?w ?bad)
      = (?w ?bad)\<lparr>errors := [(Key_standNumber, required_message), (Key_representativeName, required_message)]\<rparr>"
    by simp
  from handleSubmit_validates[of "?w ?good" "ascii ''id-1''" "ascii ''me''"] filled
  have b: "requests (fire_timer (ascii ''id-1'') (ascii ''me'') 0 (handleSubmit (?w ?good)))
     = [\<lparr>standNumber = ascii ''B7'', airline = ascii ''Test Air'', flightNumber = ascii ''T1'',
         representativeName = ascii ''X'', id_req = ascii ''id-1'', clientId = ascii ''me'',
         status = Pending, messages = [], hasUnreadUpdates = False\<rparr>]"
    by simp
  show ?thesis using a b by simp
qed

section \<open>The lists of the two views\<close>

lemma mset_CountAndMakeRun:
  "mset (fst (CountAndMakeRun comparefn a)) = mset a"
proof (induction comparefn a rule: CountAndMakeRun.induct)
  case (1 comparefn elementHigh elementLow rest)
  let ?a = "elementHigh # elementLow # rest"
  have "mset (rev (take n ?a) @ drop n ?a) = mset ?a" for n
    by (metis append_take_drop_id mset_append mset_rev)
  then show ?case by (simp add: Let_def del: take_Suc_Cons drop_Suc_Cons)
qed simp_all

lemma CountAndMakeRun_length:
  "length (fst (CountAndMakeRun comparefn a)) = length a"
  by (metis mset_CountAndMakeRun size_mset)

lemma mset_BinaryInsertionSort:
  "mset (BinaryInsertionSort comparefn sorted_part rest) = mset sorted_part + mset rest"
proof (induction rest arbitrary: sorted_part)
  case Nil
  then show ?case by simp
next
  case (Cons pivot rest)
  have "mset (take n sorted_part @ [pivot] @ drop n sorted_part) = mset sorted_part + {#pivot#}" for n
    by (metis append_take_drop_id mset.simps(2) mset_append add_mset_add_single append_Cons append_Nil union_mset_add_mset_right)
  then show ?case using Cons.IH by (simp add: Let_def)
qed

lemma mset_v8_sort: "mset (v8_sort comparefn a) = mset a"
proof -
  obtain a' n where c: "CountAndMakeRun comparefn a = (a', n)" by (cases "CountAndMakeRun comparefn a")
  then have "mset a' = mset a" using mset_CountAndMakeRun[of comparefn a] by simp
  moreover have "mset (take n a') + mset (drop n a') = mset a'"
    by (metis append_take_drop_id mset_append)
  ultimately show ?thesis
    by (simp add: v8_sort_def c mset_BinaryInsertionSort)
qed

lemma clientRequests_members:
  assumes "\<And>comparefn a. mset (sort' comparefn a) = mset a"
  shows "mset (clientRequests sort' reqs c) = mset (filter (\<lambda>r. clientId r = c) reqs)"
  by (simp add: clientRequests_def assms)

lemma CompanyView_cards_all: "CompanyView_cards reqs = reqs"
  by (simp add: CompanyView_cards_def)

text \<open>
  C3 on the code: the comparison function of the requester's list is not consistent (it
  answers \<open>-1\<close> for two Pending requests in either order, and never 0), so the order of the
  list is the engine's choice. With the sort of V8, a requester who has submitted two
  requests, both Pending, sees them in the reverse of the store's order.
\<close>

theorem clientRequests_v8_reverses_pending:
  "clientRequests v8_sort
     (addRequest (ascii ''id-2'') (ascii ''me'')
        \<lparr>standNumber = ascii ''B7'', airline = ascii ''Test Air'', flightNumber = ascii ''T2'',
          representativeName = ascii ''X''\<rparr>
        (addRequest (ascii ''id-1'') (ascii ''me'')
           \<lparr>standNumber = ascii ''B7'', airline = ascii ''Test Air'', flightNumber = ascii ''T1'',
             representativeName = ascii ''X''\<rparr> []))
     (ascii ''me'')
   = addRequest (ascii ''id-1'') (ascii ''me'')
        \<lparr>standNumber = ascii ''B7'', airline = ascii ''Test Air'', flightNumber = ascii ''T1'',
          representativeName = ascii ''X''\<rparr>
        (addRequest (ascii ''id-2'') (ascii ''me'')
           \<lparr>standNumber = ascii ''B7'', airline = ascii ''Test Air'', flightNumber = ascii ''T2'',
             representativeName = ascii ''X''\<rparr> [])"
  by (simp add: clientRequests_def v8_sort_def addRequest_def pending_first_def find_insertion_point.simps)

section \<open>The parser returns\<close>





















section \<open>The initial collection\<close>




section \<open>Saving the collection\<close>

text \<open>
  Two evaluations of the serializer: a time value as \<^verbatim>\<open>toISOString\<close> prints it, and
  the text written for the seed, which \<^verbatim>\<open>JSON.parse\<close> accepts.
\<close>

lemma toISOString_example: "toISOString 1700000000000 = ascii ''2023-11-14T22:13:20.000Z''"
  by code_simp

lemma seed_text_is_a_document:
  "map_option isl (JSON_parse (JSON_stringify (initialRequests 1700000000000 1700000000001)))
     = Some False"
  by code_simp

text \<open>
  C8, as stated, fails: when the store has no room for the text of the collection, the
  effect raises \<^verbatim>\<open>QuotaExceededError\<close>; it has no handler that would catch and log it.
\<close>

theorem save_effect_raises:
  "save_effect [] \<lparr>items = [(ascii ''notes'', replicate 90 0x61)], quota = 100\<rparr>
     = Inl QuotaExceededError"
  by (simp add: save_effect_def setItem_def storage_size_def JSON_stringify_def stringify_array_def
      ascii_def)

text \<open>
  C8, amended. The effect writes the JSON text of the collection under the key
  \<^verbatim>\<open>fuelingRequests\<close>. When the store with that item is within its quota, the write
  succeeds: the key holds the text and every other key is as before. When it is not,
  the effect raises \<^verbatim>\<open>QuotaExceededError\<close>.
\<close>

theorem save_effect_result:
  "(storage_size (put (ascii ''fuelingRequests'') (JSON_stringify reqs) (items store)) \<le> quota store
      \<longrightarrow> save_effect reqs store
            = Inr (store\<lparr>items := put (ascii ''fuelingRequests'') (JSON_stringify reqs) (items store)\<rparr>)
          \<and> getItem (store\<lparr>items := put (ascii ''fuelingRequests'') (JSON_stringify reqs) (items store)\<rparr>)
                (ascii ''fuelingRequests'') = Some (JSON_stringify reqs)
          \<and> (\<forall>k. k \<noteq> ascii ''fuelingRequests'' \<longrightarrow>
                getItem (store\<lparr>items := put (ascii ''fuelingRequests'') (JSON_stringify reqs) (items store)\<rparr>) k
                  = getItem store k))
   \<and> (quota store < storage_size (put (ascii ''fuelingRequests'') (JSON_stringify reqs) (items store))
      \<longrightarrow> save_effect reqs store = Inl QuotaExceededError)"
proof (intro conjI impI allI)
  assume a: "storage_size (put (ascii ''fuelingRequests'') (JSON_stringify reqs) (items store)) \<le> quota store"
  then show s: "save_effect reqs store
            = Inr (store\<lparr>items := put (ascii ''fuelingRequests'') (JSON_stringify reqs) (items store)\<rparr>)"
    by (simp add: save_effect_def setItem_def)
  show "getItem (store\<lparr>items := put (ascii ''fuelingRequests'') (JSON_stringify reqs) (items store)\<rparr>)
                (ascii ''fuelingRequests'') = Some (JSON_stringify reqs)"
    using getItem_setItem(1)[OF s[unfolded save_effect_def]] .
  fix k assume "k \<noteq> ascii ''fuelingRequests''"
  then show "getItem (store\<lparr>items := put (ascii ''fuelingRequests'') (JSON_stringify reqs) (items store)\<rparr>) k
                  = getItem store k"
    using getItem_setItem(2)[OF s[unfolded save_effect_def]] by blast
next
  assume "quota store < storage_size (put (ascii ''fuelingRequests'') (JSON_stringify reqs) (items store))"
  then show "save_effect reqs store = Inl QuotaExceededError"
    by (simp add: save_effect_def setItem_def)
qed

theorem save_effect_result_witness:
  "save_effect [] \<lparr>items = [], quota = 100\<rparr>
     = Inr \<lparr>items = [(ascii ''fuelingRequests'', ascii ''[]'')], quota = 100\<rparr>
   \<and> save_effect [] \<lparr>items = [], quota = 16\<rparr> = Inl QuotaExceededError"
proof -
  have j: "JSON_stringify [] = ascii ''[]''"
    by (simp add: JSON_stringify_def stringify_array_def ascii_def)
  have z: "storage_size (put (ascii ''fuelingRequests'') (ascii ''[]'') []) = 17"
    by (simp add: storage_size_def ascii_def)
  from save_effect_result[of "[]" "\<lparr>items = [], quota = 100\<rparr>"] j z
  have a: "save_effect [] \<lparr>items = [], quota = 100\<rparr>
     = Inr \<lparr>items = [(ascii ''fuelingRequests'', ascii ''[]'')], quota = 100\<rparr>"
    by simp
  from save_effect_result[of "[]" "\<lparr>items = [], quota = 16\<rparr>"] j z
  have b: "save_effect [] \<lparr>items = [], quota = 16\<rparr> = Inl QuotaExceededError"
    by simp
  show ?thesis using a b by blast
qed

end
